theory Spec2Isabelle
  imports Complex_Main
begin

section \<open>LEO pass aggregation: the event loop of \<open>predict_leo_passes\<close>\<close>

text \<open>
  \<open>satellite_pass_predictor.py\<close>, \<open>predict_leo_passes\<close>, lines 212 to 248: for one
  target the propagation library hands back two parallel arrays, the instants \<open>t0\<close>
  and the event codes \<open>events\<close> (0 rise, 1 culmination, 2 set), and the loop folds
  them into pass entries.

  An instant is represented by its \<open>tt\<close> field, a Julian date in days, read as a real
  number. The loop tests \<open>rise_time and max_time\<close>; both variables hold either
  \<open>None\<close> or a time object, and the test is read as "both are not \<open>None\<close>".
  The elevation at a culmination comes from the propagation library
  (\<open>(sat - station).at(ti).altaz()\<close>); it is the parameter \<open>alt\<close> below.
  \<open>time_utc\<close> and \<open>time_local\<close> are kept as instants (the culmination instant and
  that instant plus six hours) instead of formatted text.
\<close>

record pass_entry =
  satellite :: string
  time_utc :: real
  time_local :: real
  max_elevation :: real
  duration_min :: real
  frequency :: string

text \<open>What the loop prints: one line per emitted pass, and the "No passes" line.\<close>

datatype console_line =
    Pass_line nat real real real nat
  | No_passes_line

record leo_state =
  pass_num :: nat
  rise_time :: "real option"
  max_el :: real
  max_time :: "real option"
  all_passes :: "pass_entry list"
  printed :: "console_line list"

text \<open>The quality rating: three stars above 60 degrees, two above 30, one otherwise.\<close>

definition quality :: "real \<Rightarrow> nat" where
  "quality e = (if e > 60 then 3 else if e > 30 then 2 else 1)"

definition emit_pass :: "string \<Rightarrow> string \<Rightarrow> real \<Rightarrow> real \<Rightarrow> real \<Rightarrow> leo_state \<Rightarrow> leo_state" where
  "emit_pass name freq ti r m st =
     (let n = pass_num st + 1;
          duration = (ti - r) * 24 * 60;
          q = quality (max_el st);
          utc = m;
          local = utc + 6 / 24
      in st\<lparr>pass_num := n,
            printed := printed st @ [Pass_line n local (max_el st) duration q],
            all_passes := all_passes st @
              [\<lparr>satellite = name, time_utc = utc, time_local = local,
                max_elevation = max_el st, duration_min = duration,
                frequency = freq\<rparr>]\<rparr>)"

definition leo_step ::
  "(real \<Rightarrow> real) \<Rightarrow> string \<Rightarrow> string \<Rightarrow> leo_state \<Rightarrow> real \<times> nat \<Rightarrow> leo_state" where
  "leo_step alt name freq st ev =
     (let ti = fst ev; event = snd ev in
      if event = 0 then st\<lparr>rise_time := Some ti, max_el := 0\<rparr>
      else if event = 1 then st\<lparr>max_el := alt ti, max_time := Some ti\<rparr>
      else if event = 2 then
        (let st' = (case rise_time st of
                      None \<Rightarrow> st
                    | Some r \<Rightarrow> (case max_time st of
                                  None \<Rightarrow> st
                                | Some m \<Rightarrow> emit_pass name freq ti r m st))
         in st'\<lparr>rise_time := None, max_el := 0\<rparr>)
      else st)"

definition leo_init :: "pass_entry list \<Rightarrow> leo_state" where
  "leo_init acc = \<lparr>pass_num = 0, rise_time = None, max_el = 0, max_time = None,
                    all_passes = acc, printed = []\<rparr>"

definition leo_loop ::
  "(real \<Rightarrow> real) \<Rightarrow> string \<Rightarrow> string \<Rightarrow> leo_state \<Rightarrow> (real \<times> nat) list \<Rightarrow> leo_state" where
  "leo_loop alt name freq st evs = foldl (leo_step alt name freq) st evs"

text \<open>
  One target of \<open>predict_leo_passes\<close>: an empty event list prints the "No passes"
  line and goes on to the next target; otherwise the loop runs from the initial
  variables. \<open>acc\<close> is \<open>all_passes\<close> as the earlier targets left it.
\<close>

definition predict_target ::
  "(real \<Rightarrow> real) \<Rightarrow> string \<Rightarrow> string \<Rightarrow> pass_entry list \<Rightarrow> (real \<times> nat) list \<Rightarrow> leo_state" where
  "predict_target alt name freq acc evs =
     (if length evs = 0 then (leo_init acc)\<lparr>printed := [No_passes_line]\<rparr>
      else leo_loop alt name freq (leo_init acc) evs)"

text \<open>The pass entries one target contributes, starting from an empty result list.\<close>

definition leo_passes ::
  "(real \<Rightarrow> real) \<Rightarrow> string \<Rightarrow> string \<Rightarrow> (real \<times> nat) list \<Rightarrow> pass_entry list" where
  "leo_passes alt name freq evs = all_passes (predict_target alt name freq [] evs)"

text \<open>
  The loop over the targets: each target comes with its name, its frequency and the
  events the propagation library found for it, or \<open>None\<close> when no element set was
  found and the target is skipped. The download of the element sets and the filter on
  \<open>target_name\<close> happen before and are not modelled.
\<close>

definition predict_leo_passes ::
  "(string \<Rightarrow> real \<Rightarrow> real) \<Rightarrow> (string \<times> string \<times> (real \<times> nat) list option) list \<Rightarrow>
   pass_entry list" where
  "predict_leo_passes alt targets =
     foldl (\<lambda>acc target. case target of (name, freq, found) \<Rightarrow>
              (case found of
                 None \<Rightarrow> acc
               | Some evs \<Rightarrow> all_passes (predict_target (alt name) name freq acc evs)))
       [] targets"

text \<open>
  A well-formed pass as an event block: a rise at \<open>r\<close>, culminations at the instants
  \<open>cs\<close>, a set at \<open>s\<close>.
\<close>

definition pass_block :: "real \<times> real list \<times> real \<Rightarrow> (real \<times> nat) list" where
  "pass_block b = (case b of (r, cs, s) \<Rightarrow> (r, 0) # map (\<lambda>c. (c, 1)) cs @ [(s, 2)])"

definition block_entry ::
  "(real \<Rightarrow> real) \<Rightarrow> string \<Rightarrow> string \<Rightarrow> real \<times> real list \<times> real \<Rightarrow> pass_entry" where
  "block_entry alt name freq b = (case b of (r, cs, s) \<Rightarrow>
     \<lparr>satellite = name, time_utc = last cs, time_local = last cs + 6 / 24,
      max_elevation = alt (last cs), duration_min = (s - r) * 24 * 60,
      frequency = freq\<rparr>)"


text \<open>
  Where a record comes from in the event list: a rise at index \<open>i\<close>, a set at a later
  index \<open>j\<close>, no other rise or set between them, and the duration in minutes between
  the two instants.
\<close>

definition pass_origin :: "(real \<times> nat) list \<Rightarrow> pass_entry \<Rightarrow> bool" where
  "pass_origin evs p =
     (\<exists>j < length evs. \<exists>i < j.
        snd (evs ! i) = 0 \<and> snd (evs ! j) = 2 \<and>
        (\<forall>k. i < k \<and> k < j \<longrightarrow> snd (evs ! k) \<noteq> 0 \<and> snd (evs ! k) \<noteq> 2) \<and>
        duration_min p = (fst (evs ! j) - fst (evs ! i)) * 24 * 60)"

definition pending_rise :: "(real \<times> nat) list \<Rightarrow> real \<Rightarrow> bool" where
  "pending_rise evs r =
     (\<exists>i < length evs. evs ! i = (r, 0) \<and>
        (\<forall>k. i < k \<and> k < length evs \<longrightarrow> snd (evs ! k) \<noteq> 0 \<and> snd (evs ! k) \<noteq> 2))"

text \<open>Stand-ins for the propagation library's elevation at an instant, for concrete runs.\<close>

definition alt_const :: "real \<Rightarrow> real \<Rightarrow> real" where
  "alt_const e t = e"

definition alt_table :: "(real \<times> real) list \<Rightarrow> real \<Rightarrow> real" where
  "alt_table tab t = (case map_of tab t of Some e \<Rightarrow> e | None \<Rightarrow> 0)"


section \<open>GEO geometry: \<open>geo_arc_survey.py\<close>\<close>

text \<open>
  Python floats are read as real numbers: rounding, signed zeros and NaN are not
  modelled. \<open>math.radians\<close>, \<open>math.degrees\<close>, \<open>math.atan2\<close> and the float
  operator \<open>%\<close> with a positive right operand are written out below.
\<close>

definition radians :: "real \<Rightarrow> real" where
  "radians d = d * (pi / 180)"

definition degrees :: "real \<Rightarrow> real" where
  "degrees r = r * (180 / pi)"

definition atan2 :: "real \<Rightarrow> real \<Rightarrow> real" where
  "atan2 y x =
     (if 0 < x then arctan (y / x)
      else if x < 0 then (if 0 \<le> y then arctan (y / x) + pi else arctan (y / x) - pi)
      else if 0 < y then pi / 2
      else if y < 0 then - (pi / 2)
      else 0)"

definition py_mod :: "real \<Rightarrow> real \<Rightarrow> real" where
  "py_mod a b = a - b * of_int \<lfloor>a / b\<rfloor>"

text \<open>
  \<open>round(x, n)\<close>: to \<open>n\<close> decimals, a tie going to the even neighbour.
\<close>

definition py_round :: "real \<Rightarrow> nat \<Rightarrow> real" where
  "py_round x n =
     (let y = x * 10 ^ n; f = \<lfloor>y\<rfloor>; d = y - of_int f
      in (if d < 1 / 2 then of_int f
          else if 1 / 2 < d then of_int f + 1
          else if even f then of_int f else of_int f + 1) / 10 ^ n)"

text \<open>\<open>sub in s\<close> on strings: \<open>sub\<close> occurs in \<open>s\<close> as a contiguous piece.\<close>

fun str_in :: "string \<Rightarrow> string \<Rightarrow> bool" where
  "str_in sub [] = (sub = [])"
| "str_in sub (c # cs) = (take (length sub) (c # cs) = sub \<or> str_in sub cs)"

definition R_EARTH :: real where "R_EARTH = 6371"
definition R_GEO :: real where "R_GEO = 42164"
definition DHAKA_LAT :: real where "DHAKA_LAT = 238103 / 10000"
definition DHAKA_LON :: real where "DHAKA_LON = 904125 / 10000"
definition MIN_ELEVATION :: real where "MIN_ELEVATION = 5"

text \<open>
  \<open>calculate_geo_angles\<close> reads the observer and the minimum elevation from module
  constants; \<open>geo_angles_at\<close> is its body with the three constants as parameters, and
  \<open>calculate_geo_angles\<close> is the function as the module has it. \<open>None\<close> stands for
  the returned pair \<open>(None, None)\<close>.
\<close>

definition geo_angles_at :: "real \<Rightarrow> real \<Rightarrow> real \<Rightarrow> real \<Rightarrow> (real \<times> real) option" where
  "geo_angles_at lat_deg lon_deg min_elevation sat_lon =
     (let lat = radians lat_deg;
          delta_lon = radians (sat_lon - lon_deg);
          cos_gamma = cos lat * cos delta_lon;
          r_ratio = R_EARTH / R_GEO
      in if cos_gamma \<le> r_ratio then None
         else
           (let elevation = degrees (atan2 (cos_gamma - r_ratio) (sqrt (1 - cos_gamma ^ 2)))
            in if elevation < min_elevation then None
               else
                 (let azimuth =
                        py_mod (degrees (atan2 (sin delta_lon) (- cos delta_lon * sin lat))) 360
                  in Some (elevation, azimuth))))"

definition calculate_geo_angles :: "real \<Rightarrow> (real \<times> real) option" where
  "calculate_geo_angles sat_lon = geo_angles_at DHAKA_LAT DHAKA_LON MIN_ELEVATION sat_lon"

definition calculate_slant_range :: "real \<Rightarrow> real" where
  "calculate_slant_range elevation =
     (let el_rad = radians elevation
      in R_EARTH * (- sin el_rad + sqrt ((sin el_rad) ^ 2 + (R_GEO / R_EARTH) ^ 2 - 1)))"

text \<open>The intermediate values of \<open>calculate_geo_angles\<close>, named for the statements.\<close>

definition geo_cos_gamma :: "real \<Rightarrow> real \<Rightarrow> real \<Rightarrow> real" where
  "geo_cos_gamma lat_deg lon_deg sat_lon = cos (radians lat_deg) * cos (radians (sat_lon - lon_deg))"

definition geo_elevation :: "real \<Rightarrow> real \<Rightarrow> real \<Rightarrow> real" where
  "geo_elevation lat_deg lon_deg sat_lon =
     degrees (atan2 (geo_cos_gamma lat_deg lon_deg sat_lon - R_EARTH / R_GEO)
                    (sqrt (1 - (geo_cos_gamma lat_deg lon_deg sat_lon) ^ 2)))"

definition geo_azimuth :: "real \<Rightarrow> real \<Rightarrow> real \<Rightarrow> real" where
  "geo_azimuth lat_deg lon_deg sat_lon =
     py_mod (degrees (atan2 (sin (radians (sat_lon - lon_deg)))
                            (- cos (radians (sat_lon - lon_deg)) * sin (radians lat_deg)))) 360"

subsection \<open>The arc survey and its priority score\<close>

datatype priority = HIGH | MEDIUM | LOW

type_synonym geo_entry = "string \<times> string \<times> real \<times> string \<times> string"

record survey_row =
  row_operator :: string
  row_satellite :: string
  row_longitude :: real
  row_bands :: string
  row_coverage :: string
  row_elevation :: real
  row_azimuth :: real
  row_slant_range_km :: real
  row_priority :: priority
  row_priority_score :: real

definition priority_score_of :: "real \<Rightarrow> string \<Rightarrow> string \<Rightarrow> real" where
  "priority_score_of elevation bands coverage =
     (let s0 = 0;
          s1 = s0 + min (elevation / 10) 5;
          s2 = (if str_in ''Ku'' bands then s1 + 3 else s1);
          s3 = (if str_in ''Bangladesh'' coverage \<or> str_in ''South Asia'' coverage
                then s2 + 2 else s2);
          s4 = (if str_in ''India'' coverage then s3 + 1 else s3)
      in s4)"

definition priority_of :: "real \<Rightarrow> priority" where
  "priority_of priority_score =
     (if priority_score \<ge> 7 then HIGH
      else if priority_score \<ge> 4 then MEDIUM
      else LOW)"

definition survey_entry :: "geo_entry \<Rightarrow> survey_row option" where
  "survey_entry e = (case e of (operator, name, lon, bands, coverage) \<Rightarrow>
     (case calculate_geo_angles lon of
        None \<Rightarrow> None
      | Some (elevation, azimuth) \<Rightarrow>
          (let slant_range = calculate_slant_range elevation;
               priority_score = priority_score_of elevation bands coverage;
               priority = priority_of priority_score
           in Some \<lparr>row_operator = operator, row_satellite = name, row_longitude = lon,
                     row_bands = bands, row_coverage = coverage,
                     row_elevation = py_round elevation 2,
                     row_azimuth = py_round azimuth 2,
                     row_slant_range_km = py_round slant_range 1,
                     row_priority = priority,
                     row_priority_score = py_round priority_score 1\<rparr>)))"

definition survey_rows :: "geo_entry list \<Rightarrow> survey_row list" where
  "survey_rows db = sort_key row_longitude (List.map_filter survey_entry db)"

definition GEO_DATABASE :: "geo_entry list" where
  "GEO_DATABASE =
    [(''RSCC'', ''Express AM6'', 53, ''C/Ku'', ''Russia, Central Asia, Middle East''),
     (''ISRO'', ''GSAT-31'', 55, ''C/Ku'', ''India, South Asia''),
     (''Gazprom'', ''Yamal 402'', 55, ''Ku'', ''Russia, Central Asia, South Asia''),
     (''Intelsat'', ''Intelsat 17'', 66, ''C/Ku'', ''South Asia, East Africa''),
     (''Intelsat'', ''Intelsat 20'', 137 / 2, ''C/Ku'', ''South Asia, Middle East''),
     (''RSCC'', ''Express AM22'', 72, ''Ku'', ''Russia, South Asia''),
     (''APT Satellite'', ''Apstar 7'', 153 / 2, ''C/Ku'', ''Asia-Pacific''),
     (''Thaicom'', ''Thaicom 6'', 157 / 2, ''C/Ku'', ''Southeast Asia, South Asia''),
     (''Thaicom'', ''Thaicom 8'', 157 / 2, ''Ku'', ''South/Southeast Asia''),
     (''ISRO'', ''GSAT-30'', 83, ''C/Ku'', ''India, South Asia''),
     (''ISRO'', ''INSAT-4A'', 83, ''C/Ku'', ''India''),
     (''China Satcom'', ''ChinaSat 12'', 175 / 2, ''C/Ku'', ''Asia-Pacific''),
     (''MEASAT'', ''MEASAT-3'', 183 / 2, ''C/Ku'', ''Asia, Middle East, Africa''),
     (''MEASAT'', ''MEASAT-3a'', 183 / 2, ''C/Ku'', ''Asia, Middle East''),
     (''MEASAT'', ''MEASAT-3b'', 183 / 2, ''Ku/Ka'', ''Malaysia, South Asia''),
     (''ISRO'', ''INSAT-4B'', 187 / 2, ''C/Ku'', ''India''),
     (''SES'', ''NSS-6/SES-8'', 95, ''Ku'', ''Asia-Pacific''),
     (''SES'', ''SES-12'', 95, ''Ku/Ka'', ''Asia-Pacific, Middle East''),
     (''AsiaSat'', ''AsiaSat 5'', 201 / 2, ''C/Ku'', ''Asia-Pacific''),
     (''AsiaSat'', ''AsiaSat 7'', 211 / 2, ''C/Ku'', ''Asia-Pacific''),
     (''Telkom'', ''Telkom 4'', 108, ''C/Ku'', ''Indonesia, Southeast Asia''),
     (''SKY Perfect JSAT'', ''JCSAT-110R'', 110, ''Ku'', ''Japan, Asia-Pacific''),
     (''ABS'', ''ABS-2A'', 116, ''Ku/Ka'', ''Asia, Middle East, CIS''),
     (''BSCCL'', ''Bangabandhu-1'', 1191 / 10, ''C/Ku'', ''Bangladesh, South Asia''),
     (''AsiaSat'', ''AsiaSat 9'', 122, ''C/Ku/Ka'', ''Asia-Pacific''),
     (''JSAT'', ''JCSAT-4B'', 124, ''Ku'', ''Japan, Asia''),
     (''China Satcom'', ''ChinaSat 11'', 125, ''C/Ku'', ''China, Asia-Pacific''),
     (''SKY Perfect JSAT'', ''Superbird C2'', 144, ''Ku/Ka'', ''Japan''),
     (''Optus'', ''Optus D3'', 156, ''Ku'', ''Australia, New Zealand'')]"

definition survey_geo_arc :: "survey_row list" where
  "survey_geo_arc = survey_rows GEO_DATABASE"


section \<open>GEO visibility: \<open>calculate_geo_visibility\<close> in \<open>satellite_pass_predictor.py\<close>\<close>

datatype py_error = ZeroDivisionError

definition GROUND_STATION_latitude :: real where "GROUND_STATION_latitude = 238103 / 10000"
definition GROUND_STATION_longitude :: real where "GROUND_STATION_longitude = 904125 / 10000"

record visible_row =
  vis_name :: string
  vis_longitude :: real
  vis_operator :: string
  vis_elevation :: real
  vis_azimuth :: real

text \<open>
  The body of the loop for one target at longitude \<open>lon\<close>: \<open>Inr None\<close> when nothing
  is appended, \<open>Inr (Some (elevation, azimuth))\<close> when a row is, and the division
  raises when its divisor is zero.
\<close>

definition visibility_angles :: "real \<Rightarrow> real \<Rightarrow> real \<Rightarrow> py_error + (real \<times> real) option" where
  "visibility_angles arc_min arc_max lon =
     (if arc_min \<le> lon \<and> lon \<le> arc_max then
        (let delta_lon = \<bar>lon - GROUND_STATION_longitude\<bar>;
             lat_rad = GROUND_STATION_latitude * (314159 / 100000) / 180;
             dlon_rad = delta_lon * (314159 / 100000) / 180;
             cos_gamma = cos lat_rad * cos dlon_rad
         in if cos_gamma > 1513 / 10000 then
              (let r_ratio = 6371 / 42164 in
               if sqrt (1 - cos_gamma ^ 2) = 0 then Inl ZeroDivisionError
               else
                 (let elevation =
                        degrees (arctan ((cos_gamma - r_ratio) / sqrt (1 - cos_gamma ^ 2)));
                      azimuth =
                        py_mod (degrees (atan2 (sin dlon_rad) (- cos dlon_rad * sin lat_rad))) 360
                  in Inr (Some (elevation, azimuth))))
            else Inr None)
      else Inr None)"

fun visibility_loop ::
  "real \<Rightarrow> real \<Rightarrow> (string \<times> real \<times> string) list \<Rightarrow> visible_row list \<Rightarrow>
   py_error + visible_row list" where
  "visibility_loop arc_min arc_max [] visible = Inr visible"
| "visibility_loop arc_min arc_max ((name, lon, operator) # rest) visible =
     (case visibility_angles arc_min arc_max lon of
        Inl err \<Rightarrow> Inl err
      | Inr None \<Rightarrow> visibility_loop arc_min arc_max rest visible
      | Inr (Some (elevation, azimuth)) \<Rightarrow>
          visibility_loop arc_min arc_max rest
            (visible @ [\<lparr>vis_name = name, vis_longitude = lon, vis_operator = operator,
                          vis_elevation = elevation, vis_azimuth = azimuth\<rparr>]))"

definition GEO_TARGETS :: "(string \<times> real \<times> string) list" where
  "GEO_TARGETS =
    [(''Bangabandhu-1'', 1191 / 10, ''BSCCL (Bangladesh)''),
     (''GSAT-30'', 83, ''ISRO (India)''),
     (''GSAT-31'', 55, ''ISRO (India)''),
     (''INSAT-4A'', 83, ''ISRO (India)''),
     (''INSAT-4B'', 187 / 2, ''ISRO (India)''),
     (''Thaicom 6'', 157 / 2, ''Thaicom (Thailand)''),
     (''Thaicom 8'', 157 / 2, ''Thaicom (Thailand)''),
     (''AsiaSat 5'', 201 / 2, ''AsiaSat (Hong Kong)''),
     (''AsiaSat 7'', 211 / 2, ''AsiaSat (Hong Kong)''),
     (''AsiaSat 9'', 122, ''AsiaSat (Hong Kong)''),
     (''MEASAT-3'', 183 / 2, ''MEASAT (Malaysia)''),
     (''MEASAT-3a'', 183 / 2, ''MEASAT (Malaysia)''),
     (''MEASAT-3b'', 183 / 2, ''MEASAT (Malaysia)''),
     (''Intelsat 17'', 66, ''Intelsat''),
     (''Intelsat 20'', 137 / 2, ''Intelsat''),
     (''SES-8'', 95, ''SES (Luxembourg)''),
     (''SES-12'', 95, ''SES (Luxembourg)''),
     (''ChinaSat 12'', 175 / 2, ''China Satcom''),
     (''Apstar 7'', 153 / 2, ''APT Satellite (China)''),
     (''NSS-6'', 95, ''SES''),
     (''Yamal 402'', 55, ''Gazprom (Russia)''),
     (''Express AM6'', 53, ''RSCC (Russia)''),
     (''JCSAT-2B'', 154, ''SKY Perfect JSAT (Japan)'')]"

definition calculate_geo_visibility :: "real \<Rightarrow> real \<Rightarrow> py_error + visible_row list" where
  "calculate_geo_visibility arc_min arc_max =
     visibility_loop arc_min arc_max (sort_key (\<lambda>x. fst (snd x)) GEO_TARGETS) []"

text \<open>
  The cosine of the central angle as \<open>calculate_geo_visibility\<close> computes it, and the
  elevation as a function of that cosine (the arctangent of the quotient).
\<close>

definition visibility_cos_gamma :: "real \<Rightarrow> real" where
  "visibility_cos_gamma lon =
     cos (GROUND_STATION_latitude * (314159 / 100000) / 180) *
     cos (\<bar>lon - GROUND_STATION_longitude\<bar> * (314159 / 100000) / 180)"

definition elevation_of_cos_gamma :: "real \<Rightarrow> real" where
  "elevation_of_cos_gamma c = degrees (arctan ((c - 6371 / 42164) / sqrt (1 - c ^ 2)))"

definition visibility_azimuth :: "real \<Rightarrow> real" where
  "visibility_azimuth lon =
     py_mod (degrees (atan2
        (sin (\<bar>lon - GROUND_STATION_longitude\<bar> * (314159 / 100000) / 180))
        (- cos (\<bar>lon - GROUND_STATION_longitude\<bar> * (314159 / 100000) / 180) *
           sin (GROUND_STATION_latitude * (314159 / 100000) / 180)))) 360"


text \<open>
  The row the loop appends for a catalogue target, the test that decides whether it is
  appended, and the pairs of catalogue longitudes that lie mirrored about an observer
  longitude.
\<close>

definition visible_row_of :: "string \<times> real \<times> string \<Rightarrow> visible_row" where
  "visible_row_of t = (case t of (name, lon, operator) \<Rightarrow>
     \<lparr>vis_name = name, vis_longitude = lon, vis_operator = operator,
      vis_elevation = elevation_of_cos_gamma (visibility_cos_gamma lon),
      vis_azimuth = visibility_azimuth lon\<rparr>)"

definition listed_target :: "real \<Rightarrow> real \<Rightarrow> string \<times> real \<times> string \<Rightarrow> bool" where
  "listed_target arc_min arc_max t =
     (arc_min \<le> fst (snd t) \<and> fst (snd t) \<le> arc_max \<and>
      1513 / 10000 < visibility_cos_gamma (fst (snd t)))"



section \<open>Polynomial bounds for sine and cosine\<close>

text \<open>
  The partial sums of the sine and cosine series that enclose the two functions on the
  non-negative reals; the numeric statements below are evaluated through them.
\<close>

definition sin_lo :: "real \<Rightarrow> real" where
  "sin_lo x = x - x ^ 3 / 6 + x ^ 5 / 120 - x ^ 7 / 5040"
definition sin_hi :: "real \<Rightarrow> real" where
  "sin_hi x = x - x ^ 3 / 6 + x ^ 5 / 120 - x ^ 7 / 5040 + x ^ 9 / 362880"
definition cos_lo :: "real \<Rightarrow> real" where
  "cos_lo x = 1 - x ^ 2 / 2 + x ^ 4 / 24 - x ^ 6 / 720"
definition cos_hi :: "real \<Rightarrow> real" where
  "cos_hi x = 1 - x ^ 2 / 2 + x ^ 4 / 24 - x ^ 6 / 720 + x ^ 8 / 40320"


section \<open>Properties of the LEO pass aggregation\<close>

lemma leo_loop_Nil: "leo_loop alt name freq st [] = st"
  by (simp add: leo_loop_def)

lemma leo_loop_Cons:
  "leo_loop alt name freq st (e # es) = leo_loop alt name freq (leo_step alt name freq st e) es"
  by (simp add: leo_loop_def)

lemma leo_loop_append:
  "leo_loop alt name freq st (xs @ ys) = leo_loop alt name freq (leo_loop alt name freq st xs) ys"
  by (simp add: leo_loop_def)

lemma leo_step_rise:
  "leo_step alt name freq st (t, 0) = st\<lparr>rise_time := Some t, max_el := 0\<rparr>"
  by (simp add: leo_step_def)

lemma leo_step_culm:
  "leo_step alt name freq st (t, Suc 0) = st\<lparr>max_el := alt t, max_time := Some t\<rparr>"
  by (simp add: leo_step_def)

lemma leo_step_set_some:
  "rise_time st = Some r \<Longrightarrow> max_time st = Some m \<Longrightarrow>
   leo_step alt name freq st (t, 2) =
     (emit_pass name freq t r m st)\<lparr>rise_time := None, max_el := 0\<rparr>"
  by (simp add: leo_step_def)

lemma leo_step_set_no_rise:
  "rise_time st = None \<Longrightarrow>
   leo_step alt name freq st (t, 2) = st\<lparr>rise_time := None, max_el := 0\<rparr>"
  by (simp add: leo_step_def)

lemma leo_step_set_no_culm:
  "max_time st = None \<Longrightarrow>
   leo_step alt name freq st (t, 2) = st\<lparr>rise_time := None, max_el := 0\<rparr>"
  by (simp add: leo_step_def split: option.splits)

lemma leo_loop_culms:
  "cs \<noteq> [] \<Longrightarrow>
   leo_loop alt name freq st (map (\<lambda>c. (c, 1)) cs) =
     st\<lparr>max_el := alt (last cs), max_time := Some (last cs)\<rparr>"
proof (induction cs arbitrary: st)
  case Nil
  then show ?case by simp
next
  case (Cons c cs)
  show ?case
  proof (cases "cs = []")
    case True
    then show ?thesis by (simp add: leo_loop_Cons leo_loop_Nil leo_step_culm)
  next
    case False
    then show ?thesis
      using Cons.IH [OF False, of "leo_step alt name freq st (c, 1)"]
      by (simp add: leo_loop_Cons leo_step_culm)
  qed
qed

lemma leo_loop_block:
  assumes "cs \<noteq> []"
  shows "leo_loop alt name freq st (pass_block (r, cs, s)) =
     st\<lparr>pass_num := pass_num st + 1, rise_time := None, max_el := 0,
        max_time := Some (last cs),
        all_passes := all_passes st @ [block_entry alt name freq (r, cs, s)],
        printed := printed st @
          [Pass_line (pass_num st + 1) (last cs + 6 / 24) (alt (last cs))
             ((s - r) * 24 * 60) (quality (alt (last cs)))]\<rparr>"
proof -
  let ?st1 = "st\<lparr>rise_time := Some r, max_el := 0\<rparr>"
  let ?st2 = "?st1\<lparr>max_el := alt (last cs), max_time := Some (last cs)\<rparr>"
  have "leo_loop alt name freq st (pass_block (r, cs, s)) =
        leo_step alt name freq
          (leo_loop alt name freq ?st1 (map (\<lambda>c. (c, 1)) cs)) (s, 2)"
    unfolding pass_block_def
    by (simp only: prod.case leo_loop_Cons leo_loop_append leo_loop_Nil leo_step_rise)
  also have "\<dots> = leo_step alt name freq ?st2 (s, 2)"
    by (simp only: leo_loop_culms [OF assms])
  also have "\<dots> = (emit_pass name freq s r (last cs) ?st2)\<lparr>rise_time := None, max_el := 0\<rparr>"
    by (rule leo_step_set_some) simp_all
  finally show ?thesis
    by (simp add: emit_pass_def block_entry_def Let_def)
qed

lemma leo_loop_blocks_passes:
  "\<forall>b \<in> set bs. fst (snd b) \<noteq> [] \<Longrightarrow>
   all_passes (leo_loop alt name freq st (concat (map pass_block bs))) =
     all_passes st @ map (block_entry alt name freq) bs"
proof (induction bs arbitrary: st)
  case Nil
  then show ?case by (simp add: leo_loop_Nil)
next
  case (Cons b bs)
  obtain r cs s where b: "b = (r, cs, s)" by (cases b) auto
  from Cons.prems b have cs: "cs \<noteq> []" by simp
  from Cons.prems have rest: "\<forall>b \<in> set bs. fst (snd b) \<noteq> []" by simp
  show ?case
    using Cons.IH [OF rest] by (simp add: b leo_loop_append leo_loop_block [OF cs])
qed

lemma pass_block_not_Nil: "pass_block b \<noteq> []"
  by (cases b) (simp add: pass_block_def)

lemma leo_passes_blocks:
  assumes "\<forall>b \<in> set bs. fst (snd b) \<noteq> []"
  shows "leo_passes alt name freq (concat (map pass_block bs)) = map (block_entry alt name freq) bs"
proof (cases bs)
  case Nil
  then show ?thesis by (simp add: leo_passes_def predict_target_def leo_init_def)
next
  case (Cons b bs')
  then have ne: "length (concat (map pass_block bs)) \<noteq> 0" by (simp add: pass_block_not_Nil)
  have "leo_passes alt name freq (concat (map pass_block bs)) =
        all_passes (leo_loop alt name freq (leo_init []) (concat (map pass_block bs)))"
    unfolding leo_passes_def predict_target_def using ne by (simp only: if_False)
  also have "\<dots> = all_passes (leo_init []) @ map (block_entry alt name freq) bs"
    by (rule leo_loop_blocks_passes [OF assms])
  finally show ?thesis by (simp add: leo_init_def)
qed

lemma pass_origin_append: "pass_origin evs p \<Longrightarrow> pass_origin (evs @ es) p"
  unfolding pass_origin_def
  apply (elim exE conjE)
  subgoal for j i
    apply (rule exI [of _ j], simp)
    apply (rule exI [of _ i], simp add: nth_append)
    done
  done

lemma pending_rise_new: "pending_rise (evs @ [(t, 0)]) t"
  unfolding pending_rise_def
  by (rule exI [of _ "length evs"]) simp

lemma pending_rise_keep:
  "pending_rise evs r \<Longrightarrow> c \<noteq> 0 \<Longrightarrow> c \<noteq> 2 \<Longrightarrow> pending_rise (evs @ [(t, c)]) r"
  unfolding pending_rise_def
  apply (elim exE conjE)
  subgoal for i
    apply (rule exI [of _ i])
    apply (auto simp: nth_append)
    done
  done

lemma pending_rise_set:
  assumes "pending_rise evs r" and "duration_min p = (t - r) * 24 * 60"
  shows "pass_origin (evs @ [(t, 2)]) p"
proof -
  from assms(1) obtain i where i: "i < length evs" "evs ! i = (r, 0)"
    "\<forall>k. i < k \<and> k < length evs \<longrightarrow> snd (evs ! k) \<noteq> 0 \<and> snd (evs ! k) \<noteq> 2"
    unfolding pending_rise_def by blast
  show ?thesis
    unfolding pass_origin_def
    apply (rule exI [of _ "length evs"], simp)
    apply (rule exI [of _ i])
    using i assms(2) by (auto simp: nth_append)
qed

lemma leo_step_other:
  "c \<noteq> 0 \<Longrightarrow> c \<noteq> 1 \<Longrightarrow> c \<noteq> 2 \<Longrightarrow> leo_step alt name freq st (t, c) = st"
  by (simp add: leo_step_def)

lemma all_passes_emit:
  "all_passes (emit_pass name freq t r m st) =
     all_passes st @ [\<lparr>satellite = name, time_utc = m, time_local = m + 6 / 24,
        max_elevation = max_el st, duration_min = (t - r) * 24 * 60, frequency = freq\<rparr>]"
  by (simp add: emit_pass_def Let_def)

lemma leo_loop_origin:
  "(\<forall>r. rise_time (leo_loop alt name freq (leo_init []) evs) = Some r \<longrightarrow> pending_rise evs r) \<and>
   (\<forall>p \<in> set (all_passes (leo_loop alt name freq (leo_init []) evs)). pass_origin evs p)"
proof (induction evs rule: rev_induct)
  case Nil
  then show ?case by (simp add: leo_loop_Nil leo_init_def)
next
  case (snoc e evs)
  let ?st = "leo_loop alt name freq (leo_init []) evs"
  obtain t c where e: "e = (t, c)" by (cases e) auto
  have run: "leo_loop alt name freq (leo_init []) (evs @ [e]) = leo_step alt name freq ?st (t, c)"
    by (simp add: leo_loop_append leo_loop_Cons leo_loop_Nil e)
  from snoc.IH have pend: "\<And>r. rise_time ?st = Some r \<Longrightarrow> pending_rise evs r"
    and orig: "\<And>p. p \<in> set (all_passes ?st) \<Longrightarrow> pass_origin evs p" by blast+
  have A: "\<forall>r. rise_time (leo_step alt name freq ?st (t, c)) = Some r \<longrightarrow>
              pending_rise (evs @ [(t, c)]) r"
  proof (intro allI impI)
    fix r assume r: "rise_time (leo_step alt name freq ?st (t, c)) = Some r"
    consider (rise) "c = 0" | (culm) "c = 1" | (set) "c = 2"
      | (other) "c \<noteq> 0" "c \<noteq> 1" "c \<noteq> 2"
      by blast
    then show "pending_rise (evs @ [(t, c)]) r"
    proof cases
      case rise
      with r show ?thesis by (simp add: leo_step_rise pending_rise_new)
    next
      case culm
      with r show ?thesis by (simp add: leo_step_culm pending_rise_keep pend)
    next
      case set
      with r show ?thesis by (simp add: leo_step_def Let_def)
    next
      case other
      with r show ?thesis by (simp add: leo_step_other pending_rise_keep pend)
    qed
  qed
  have B: "\<forall>p \<in> set (all_passes (leo_step alt name freq ?st (t, c))).
              pass_origin (evs @ [(t, c)]) p"
  proof
    fix p assume p: "p \<in> set (all_passes (leo_step alt name freq ?st (t, c)))"
    show "pass_origin (evs @ [(t, c)]) p"
    proof (cases "c = 2")
      case False
      then have "all_passes (leo_step alt name freq ?st (t, c)) = all_passes ?st"
        by (simp add: leo_step_def)
      with p show ?thesis by (simp add: orig pass_origin_append)
    next
      case True
      note set = this
      show ?thesis
      proof (cases "rise_time ?st")
        case None
        with p set show ?thesis
          by (simp add: leo_step_set_no_rise orig pass_origin_append)
      next
        case (Some r)
        note r = this
        show ?thesis
        proof (cases "max_time ?st")
          case None
          with p set show ?thesis
            by (simp add: leo_step_set_no_culm orig pass_origin_append)
        next
          case (Some m)
          have pr: "pending_rise evs r" using pend r by simp
          from p set have "p \<in> set (all_passes ?st) \<or> duration_min p = (t - r) * 24 * 60"
            by (auto simp: leo_step_set_some [OF r Some] all_passes_emit)
          then show ?thesis
            using pending_rise_set [OF pr] set by (auto simp: orig pass_origin_append)
        qed
      qed
    qed
  qed
  show ?case
    unfolding run using A B unfolding e by blast
qed

lemma leo_passes_origin:
  assumes "p \<in> set (leo_passes alt name freq evs)"
  shows "pass_origin evs p"
proof (cases "length evs = 0")
  case True
  with assms show ?thesis by (simp add: leo_passes_def predict_target_def leo_init_def)
next
  case False
  with assms have "p \<in> set (all_passes (leo_loop alt name freq (leo_init []) evs))"
    by (simp add: leo_passes_def predict_target_def)
  then show ?thesis using leo_loop_origin by blast
qed

lemma leo_step_no_set_passes:
  "snd e \<noteq> 2 \<Longrightarrow> all_passes (leo_step alt name freq st e) = all_passes st"
  by (cases e) (simp add: leo_step_def)

lemma leo_loop_no_set_passes:
  "\<forall>e \<in> set es. snd e \<noteq> 2 \<Longrightarrow>
   all_passes (leo_loop alt name freq st es) = all_passes st"
  by (induction es arbitrary: st) (simp_all add: leo_loop_Nil leo_loop_Cons leo_step_no_set_passes)

lemma leo_passes_loop:
  "leo_passes alt name freq evs = all_passes (leo_loop alt name freq (leo_init []) evs)"
  by (cases evs) (simp_all add: leo_passes_def predict_target_def leo_init_def leo_loop_Nil)

lemma leo_loop_no_rise:
  "\<forall>e \<in> set evs. snd e \<noteq> 0 \<Longrightarrow> rise_time st = None \<Longrightarrow>
   rise_time (leo_loop alt name freq st evs) = None \<and>
   all_passes (leo_loop alt name freq st evs) = all_passes st \<and>
   printed (leo_loop alt name freq st evs) = printed st \<and>
   pass_num (leo_loop alt name freq st evs) = pass_num st"
proof (induction evs arbitrary: st)
  case Nil
  then show ?case by (simp add: leo_loop_Nil)
next
  case (Cons e evs)
  obtain t c where e: "e = (t, c)" by (cases e) auto
  from Cons.prems have c: "c \<noteq> 0" and rest: "\<forall>e \<in> set evs. snd e \<noteq> 0" by (auto simp: e)
  have step: "rise_time (leo_step alt name freq st (t, c)) = None \<and>
        all_passes (leo_step alt name freq st (t, c)) = all_passes st \<and>
        printed (leo_step alt name freq st (t, c)) = printed st \<and>
        pass_num (leo_step alt name freq st (t, c)) = pass_num st"
    using c Cons.prems(2) by (simp add: leo_step_def)
  show ?case
    using Cons.IH [OF rest, of "leo_step alt name freq st (t, c)"] step
    by (simp add: leo_loop_Cons e)
qed

lemma leo_passes_context_block:
  assumes "cs \<noteq> []"
  shows "leo_passes alt name freq (pre @ pass_block (r, cs, s)) =
         leo_passes alt name freq pre @ [block_entry alt name freq (r, cs, s)]"
  by (simp add: leo_passes_loop leo_loop_append leo_loop_block [OF assms])

lemma leo_passes_window:
  assumes pre: "\<forall>e \<in> set pre. snd e \<noteq> 0"
    and bs: "\<forall>b \<in> set bs. fst (snd b) \<noteq> []"
    and post: "\<forall>e \<in> set post. snd e \<noteq> 2"
  shows "leo_passes alt name freq (pre @ concat (map pass_block bs) @ post) =
         map (block_entry alt name freq) bs"
proof -
  let ?st = "leo_loop alt name freq (leo_init []) pre"
  have "rise_time (leo_init []) = None" by (simp add: leo_init_def)
  from leo_loop_no_rise [OF pre this, of alt name freq]
  have p: "all_passes ?st = []" by (simp add: leo_init_def)
  have "leo_passes alt name freq (pre @ concat (map pass_block bs) @ post) =
        all_passes (leo_loop alt name freq
          (leo_loop alt name freq ?st (concat (map pass_block bs))) post)"
    by (simp add: leo_passes_loop leo_loop_append)
  also have "\<dots> = all_passes (leo_loop alt name freq ?st (concat (map pass_block bs)))"
    by (rule leo_loop_no_set_passes [OF post])
  also have "\<dots> = all_passes ?st @ map (block_entry alt name freq) bs"
    by (rule leo_loop_blocks_passes [OF bs])
  finally show ?thesis by (simp add: p)
qed

lemma leo_loop_no_culm:
  "\<forall>e \<in> set evs. snd e \<noteq> 1 \<Longrightarrow> max_time st = None \<Longrightarrow>
   max_time (leo_loop alt name freq st evs) = None"
proof (induction evs arbitrary: st)
  case Nil
  then show ?case by (simp add: leo_loop_Nil)
next
  case (Cons e evs)
  obtain t c where e: "e = (t, c)" by (cases e) auto
  from Cons.prems have c: "c \<noteq> 1" and rest: "\<forall>e \<in> set evs. snd e \<noteq> 1" by (auto simp: e)
  have "max_time (leo_step alt name freq st (t, c)) = None"
    using c Cons.prems(2) by (simp add: leo_step_def split: option.splits)
  from Cons.IH [OF rest this] show ?case by (simp add: leo_loop_Cons e)
qed

lemma leo_passes_no_culm_pair:
  assumes "\<forall>e \<in> set pre. snd e \<noteq> 1"
  shows "leo_passes alt name freq (pre @ pass_block (r, [], s)) = leo_passes alt name freq pre"
proof -
  let ?st = "leo_loop alt name freq (leo_init []) pre"
  have "max_time (leo_init []) = None" by (simp add: leo_init_def)
  from leo_loop_no_culm [OF assms this, of alt name freq]
  have m: "max_time ?st = None" .
  have "max_time (leo_step alt name freq ?st (r, 0)) = None"
    using m by (simp add: leo_step_rise)
  then have "all_passes (leo_step alt name freq (leo_step alt name freq ?st (r, 0)) (s, 2)) =
             all_passes ?st"
    by (simp add: leo_step_set_no_culm leo_step_rise)
  then show ?thesis
    by (simp add: leo_passes_loop leo_loop_append pass_block_def leo_loop_Cons leo_loop_Nil)
qed

lemmas leo_eval = leo_passes_def predict_target_def leo_loop_def leo_step_def emit_pass_def
  leo_init_def Let_def quality_def alt_const_def alt_table_def

text \<open>
  Claim C2 as stated (a culmination is optional) fails: a rise and a set with no
  culmination between them give no record.
\<close>

theorem leo_rise_set_without_culmination_counterexample:
  "length (leo_passes (alt_const 45) ''NOAA 19'' ''137.100 MHz'' [(1, 0), (2, 2)]) = 0"
  by (simp add: leo_eval)

text \<open>
  Claim C2, as the code has it. A record is appended at a set only when a rise is pending
  and a culmination has been seen (\<open>if rise_time and max_time\<close>). Whatever came
  before it, a pass made of a rise, one or more culminations and a set appends exactly
  one record. So a window that starts with events before the first rise and ends with
  a pass still in progress yields exactly one record per complete pass. A rise
  followed by a set, with no culmination anywhere before the set, appends none.
\<close>

theorem leo_one_record_per_pass:
  "(cs \<noteq> [] \<longrightarrow>
      leo_passes alt name freq (pre @ pass_block (r, cs, s)) =
      leo_passes alt name freq pre @ [block_entry alt name freq (r, cs, s)]) \<and>
   ((\<forall>e \<in> set pre. snd e \<noteq> 0) \<and> (\<forall>b \<in> set bs. fst (snd b) \<noteq> []) \<and>
    (\<forall>e \<in> set post. snd e \<noteq> 2) \<longrightarrow>
      leo_passes alt name freq (pre @ concat (map pass_block bs) @ post) =
      map (block_entry alt name freq) bs) \<and>
   ((\<forall>e \<in> set pre. snd e \<noteq> 1) \<longrightarrow>
      leo_passes alt name freq (pre @ pass_block (r, [], s)) = leo_passes alt name freq pre)"
proof (intro conjI impI)
  assume "cs \<noteq> []"
  then show "leo_passes alt name freq (pre @ pass_block (r, cs, s)) =
      leo_passes alt name freq pre @ [block_entry alt name freq (r, cs, s)]"
    by (rule leo_passes_context_block)
next
  assume "(\<forall>e \<in> set pre. snd e \<noteq> 0) \<and> (\<forall>b \<in> set bs. fst (snd b) \<noteq> []) \<and>
    (\<forall>e \<in> set post. snd e \<noteq> 2)"
  then show "leo_passes alt name freq (pre @ concat (map pass_block bs) @ post) =
      map (block_entry alt name freq) bs"
    by (intro leo_passes_window) simp_all
next
  assume "\<forall>e \<in> set pre. snd e \<noteq> 1"
  then show "leo_passes alt name freq (pre @ pass_block (r, [], s)) = leo_passes alt name freq pre"
    by (rule leo_passes_no_culm_pair)
qed

theorem leo_one_record_per_pass_witness:
  "length (leo_passes (alt_const 45) ''NOAA 19'' ''137.100 MHz''
     ([(1, 2)] @ pass_block (3, [4], 5))) = 1 \<and>
   length (leo_passes (alt_const 45) ''NOAA 19'' ''137.100 MHz''
     ([(1, 2)] @ concat (map pass_block [(3, [4], 5), (6, [7, 8], 9)]) @ [(10, 0), (11, 1)])) = 2 \<and>
   leo_passes (alt_const 45) ''NOAA 19'' ''137.100 MHz'' ([(1, 2)] @ pass_block (3, [], 5)) = []"
proof -
  note t = leo_one_record_per_pass
    [of "[4]" "alt_const 45" "''NOAA 19''" "''137.100 MHz''" "[(1, 2)]" 3 5
        "[(3, [4], 5), (6, [7, 8], 9)]" "[(10, 0), (11, 1)]"]
  have e: "leo_passes (alt_const 45) ''NOAA 19'' ''137.100 MHz'' [(1, 2)] = []"
    by (simp add: leo_eval)
  have h1: "[4 :: real] \<noteq> []" by simp
  have h2: "(\<forall>e \<in> set [(1 :: real, 2 :: nat)]. snd e \<noteq> 0) \<and>
            (\<forall>b \<in> set [(3 :: real, [4 :: real], 5 :: real), (6, [7, 8], 9)]. fst (snd b) \<noteq> []) \<and>
            (\<forall>e \<in> set [(10 :: real, 0 :: nat), (11, 1)]. snd e \<noteq> 2)" by simp
  have h3: "\<forall>e \<in> set [(1 :: real, 2 :: nat)]. snd e \<noteq> 1" by simp
  have a: "length (leo_passes (alt_const 45) ''NOAA 19'' ''137.100 MHz''
     ([(1, 2)] @ pass_block (3, [4], 5))) = 1"
    by (simp only: t [THEN conjunct1, THEN mp, OF h1] e) simp
  have b: "length (leo_passes (alt_const 45) ''NOAA 19'' ''137.100 MHz''
     ([(1, 2)] @ concat (map pass_block [(3, [4], 5), (6, [7, 8], 9)]) @ [(10, 0), (11, 1)])) = 2"
    by (simp only: t [THEN conjunct2, THEN conjunct1, THEN mp, OF h2]) simp
  have c: "leo_passes (alt_const 45) ''NOAA 19'' ''137.100 MHz'' ([(1, 2)] @ pass_block (3, [], 5)) = []"
    by (simp only: t [THEN conjunct2, THEN conjunct2, THEN mp, OF h3] e)
  show ?thesis by (intro conjI a b c)
qed

text \<open>
  Claim C3 as stated (the greatest culmination is kept) fails: with culminations at
  50 and then 40 degrees the record says 40.
\<close>

theorem leo_two_culminations_counterexample:
  "map max_elevation
     (leo_passes (alt_table [(2, 50), (3, 40)]) ''NOAA 19'' ''137.100 MHz''
        [(1, 0), (2, 1), (3, 1), (4, 2)]) = [40] \<and>
   Max (set (map (alt_table [(2, 50), (3, 40)]) [2, 3])) = 50"
  by (simp add: leo_eval)

text \<open>
  Claim C3, as the code has it. Every culmination overwrites \<open>max_el\<close>, so the record
  of a pass with one or more culminations carries the elevation of its last
  culmination, whatever came before the pass; in a window of complete passes, with
  events before the first rise and a pass in progress at the end, every record does.
\<close>

theorem leo_last_culmination_kept:
  "(cs \<noteq> [] \<longrightarrow>
      map max_elevation (leo_passes alt name freq (pre @ pass_block (r, cs, s))) =
      map max_elevation (leo_passes alt name freq pre) @ [alt (last cs)]) \<and>
   ((\<forall>e \<in> set pre. snd e \<noteq> 0) \<and> (\<forall>b \<in> set bs. fst (snd b) \<noteq> []) \<and>
    (\<forall>e \<in> set post. snd e \<noteq> 2) \<longrightarrow>
      map max_elevation (leo_passes alt name freq (pre @ concat (map pass_block bs) @ post)) =
      map (\<lambda>b. alt (last (fst (snd b)))) bs)"
proof (intro conjI impI)
  assume "cs \<noteq> []"
  then show "map max_elevation (leo_passes alt name freq (pre @ pass_block (r, cs, s))) =
      map max_elevation (leo_passes alt name freq pre) @ [alt (last cs)]"
    by (simp add: leo_passes_context_block block_entry_def)
next
  assume h: "(\<forall>e \<in> set pre. snd e \<noteq> 0) \<and> (\<forall>b \<in> set bs. fst (snd b) \<noteq> []) \<and>
    (\<forall>e \<in> set post. snd e \<noteq> 2)"
  have m: "max_elevation (block_entry alt name freq b) = alt (last (fst (snd b)))" for b
    by (cases b) (simp add: block_entry_def)
  have "leo_passes alt name freq (pre @ concat (map pass_block bs) @ post) =
      map (block_entry alt name freq) bs"
    using h by (intro leo_passes_window) simp_all
  then show "map max_elevation (leo_passes alt name freq (pre @ concat (map pass_block bs) @ post)) =
      map (\<lambda>b. alt (last (fst (snd b)))) bs"
    by (simp add: m)
qed

theorem leo_last_culmination_kept_witness:
  "map max_elevation (leo_passes (alt_table [(2, 50), (3, 40), (7, 20)]) ''NOAA 19'' ''137.100 MHz''
      ([(1, 0), (2, 1), (4, 2)] @ pass_block (5, [2, 3], 6))) = [50, 40] \<and>
   map max_elevation (leo_passes (alt_table [(2, 50), (3, 40), (7, 20)]) ''NOAA 19'' ''137.100 MHz''
      ([(1, 2)] @ concat (map pass_block [(1, [2, 3], 4), (5, [7], 8)]) @ [(9, 0), (10, 1)])) = [40, 20]"
proof -
  let ?alt = "alt_table [(2, 50), (3, 40), (7, 20)]"
  have e: "map max_elevation (leo_passes ?alt ''NOAA 19'' ''137.100 MHz'' [(1, 0), (2, 1), (4, 2)]) = [50]"
    by (simp add: leo_eval)
  have h1: "[2, 3 :: real] \<noteq> []" by simp
  have h2: "(\<forall>e \<in> set [(1 :: real, 2 :: nat)]. snd e \<noteq> 0) \<and>
            (\<forall>b \<in> set [(1 :: real, [2, 3 :: real], 4 :: real), (5, [7], 8)]. fst (snd b) \<noteq> []) \<and>
            (\<forall>e \<in> set [(9 :: real, 0 :: nat), (10, 1)]. snd e \<noteq> 2)" by simp
  have a: "map max_elevation (leo_passes ?alt ''NOAA 19'' ''137.100 MHz''
      ([(1, 0), (2, 1), (4, 2)] @ pass_block (5, [2, 3], 6))) = [50, 40]"
    using leo_last_culmination_kept
      [of "[2, 3]" ?alt "''NOAA 19''" "''137.100 MHz''" "[(1, 0), (2, 1), (4, 2)]" 5 6 "[]" "[]",
       THEN conjunct1, THEN mp, OF h1]
    by (simp only: e) (simp add: alt_table_def)
  have b: "map max_elevation (leo_passes ?alt ''NOAA 19'' ''137.100 MHz''
      ([(1, 2)] @ concat (map pass_block [(1, [2, 3], 4), (5, [7], 8)]) @ [(9, 0), (10, 1)])) = [40, 20]"
    using leo_last_culmination_kept
      [of "[]" ?alt "''NOAA 19''" "''137.100 MHz''" "[(1, 2)]" 0 0
          "[(1, [2, 3], 4), (5, [7], 8)]" "[(9, 0), (10, 1)]",
       THEN conjunct2, THEN mp, OF h2]
    by (simp add: alt_table_def)
  show ?thesis by (intro conjI a b)
qed





text \<open>
  Claim C6 as stated (zero records and one warning) fails: a lone set gives zero
  records and zero lines of output.
\<close>

theorem leo_orphan_set_no_warning_counterexample:
  "\<not> (length (all_passes (predict_target (alt_const 45) ''NOAA 19'' ''137.100 MHz'' [] [(5, 2)])) = 0 \<and>
      length (printed (predict_target (alt_const 45) ''NOAA 19'' ''137.100 MHz'' [] [(5, 2)])) = 1)"
  by (simp add: leo_eval)

text \<open>
  Claim C6, as the code has it. A set with no rise before it adds no record, and the
  loop reports nothing about it: nothing is printed and the result list is unchanged.
\<close>

theorem leo_orphan_set_silent:
  assumes "\<forall>e \<in> set evs. snd e \<noteq> 0"
  shows "all_passes (predict_target alt name freq acc (evs @ [(t, 2)])) = acc \<and>
         printed (predict_target alt name freq acc (evs @ [(t, 2)])) = []"
proof -
  let ?st = "leo_loop alt name freq (leo_init acc) evs"
  have pt: "predict_target alt name freq acc (evs @ [(t, 2)]) = leo_step alt name freq ?st (t, 2)"
    by (simp add: predict_target_def leo_loop_append leo_loop_Cons leo_loop_Nil)
  have "rise_time (leo_init acc) = None" by (simp add: leo_init_def)
  from leo_loop_no_rise [OF assms this, of alt name freq]
  have st: "rise_time ?st = None" "all_passes ?st = acc" "printed ?st = []"
    by (simp_all add: leo_init_def)
  show ?thesis
    unfolding pt by (simp add: leo_step_set_no_rise [OF st(1)] st)
qed

theorem leo_orphan_set_silent_witness:
  "all_passes (predict_target (alt_const 45) ''NOAA 19'' ''137.100 MHz'' [] ([(1, 1)] @ [(2, 2)])) = [] \<and>
   printed (predict_target (alt_const 45) ''NOAA 19'' ''137.100 MHz'' [] ([(1, 1)] @ [(2, 2)])) = []"
  using leo_orphan_set_silent [of "[(1, 1)]" "alt_const 45" "''NOAA 19''" "''137.100 MHz''" "[]" 2]
  by simp

text \<open>
  Claim C8. Events after which no set follows add no record, so a pass still in
  progress at the end of the window is not reported; and every emitted record has a
  rise and a later set in the event list.
\<close>

theorem leo_record_needs_rise_and_set:
  "((\<forall>e \<in> set rest. snd e \<noteq> 2) \<longrightarrow>
      leo_passes alt name freq (evs @ rest) = leo_passes alt name freq evs) \<and>
   (p \<in> set (leo_passes alt name freq evs) \<longrightarrow>
      (\<exists>j < length evs. \<exists>i < j. snd (evs ! i) = 0 \<and> snd (evs ! j) = 2))"
proof (intro conjI impI)
  assume "\<forall>e \<in> set rest. snd e \<noteq> 2"
  then show "leo_passes alt name freq (evs @ rest) = leo_passes alt name freq evs"
    by (simp add: leo_passes_loop leo_loop_append leo_loop_no_set_passes)
next
  assume "p \<in> set (leo_passes alt name freq evs)"
  from leo_passes_origin [OF this]
  show "\<exists>j < length evs. \<exists>i < j. snd (evs ! i) = 0 \<and> snd (evs ! j) = 2"
    unfolding pass_origin_def by blast
qed

theorem leo_record_needs_rise_and_set_witness:
  "leo_passes (alt_const 45) ''NOAA 19'' ''137.100 MHz'' ([(1, 0), (2, 1), (3, 2)] @ [(4, 0), (5, 1)]) =
   leo_passes (alt_const 45) ''NOAA 19'' ''137.100 MHz'' [(1, 0), (2, 1), (3, 2)] \<and>
   \<lparr>satellite = ''NOAA 19'', time_utc = 2, time_local = 2 + 6 / 24, max_elevation = 45,
     duration_min = 2 * 24 * 60, frequency = ''137.100 MHz''\<rparr>
     \<in> set (leo_passes (alt_const 45) ''NOAA 19'' ''137.100 MHz'' [(1, 0), (2, 1), (3, 2)]) \<and>
   (\<exists>j < length [(1 :: real, 0 :: nat), (2, 1), (3, 2)]. \<exists>i < j.
      snd ([(1 :: real, 0 :: nat), (2, 1), (3, 2)] ! i) = 0 \<and>
      snd ([(1 :: real, 0 :: nat), (2, 1), (3, 2)] ! j) = 2)"
proof -
  let ?p = "\<lparr>satellite = ''NOAA 19'', time_utc = 2, time_local = 2 + 6 / 24, max_elevation = 45,
     duration_min = 2 * 24 * 60, frequency = ''137.100 MHz''\<rparr>"
  have m: "?p \<in> set (leo_passes (alt_const 45) ''NOAA 19'' ''137.100 MHz'' [(1, 0), (2, 1), (3, 2)])"
    by (simp add: leo_eval)
  have n: "\<forall>e \<in> set [(4 :: real, 0 :: nat), (5, 1)]. snd e \<noteq> 2" by simp
  note t = leo_record_needs_rise_and_set
    [of "[(4, 0), (5, 1)]" "alt_const 45" "''NOAA 19''" "''137.100 MHz''" "[(1, 0), (2, 1), (3, 2)]" ?p]
  have a: "leo_passes (alt_const 45) ''NOAA 19'' ''137.100 MHz'' ([(1, 0), (2, 1), (3, 2)] @ [(4, 0), (5, 1)]) =
           leo_passes (alt_const 45) ''NOAA 19'' ''137.100 MHz'' [(1, 0), (2, 1), (3, 2)]"
    by (rule t [THEN conjunct1, THEN mp, OF n])
  have b: "\<exists>j < length [(1 :: real, 0 :: nat), (2, 1), (3, 2)]. \<exists>i < j.
      snd ([(1 :: real, 0 :: nat), (2, 1), (3, 2)] ! i) = 0 \<and>
      snd ([(1 :: real, 0 :: nat), (2, 1), (3, 2)] ! j) = 2"
    by (rule t [THEN conjunct2, THEN mp, OF m])
  show ?thesis by (intro conjI a m b)
qed


section \<open>Bounds for \<open>pi\<close>, sine and cosine\<close>

lemma arctan_lower7:
  fixes x :: real
  assumes "0 \<le> x"
  shows "x - x ^ 3 / 3 + x ^ 5 / 5 - x ^ 7 / 7 \<le> arctan x"
proof -
  let ?f = "\<lambda>t::real. arctan t - (t - t ^ 3 / 3 + t ^ 5 / 5 - t ^ 7 / 7)"
  have "?f 0 \<le> ?f x"
  proof (rule DERIV_nonneg_imp_nondecreasing [OF assms])
    fix t :: real
    assume "0 \<le> t" "t \<le> x"
    have d: "(?f has_real_derivative (1 / (1 + t\<^sup>2) - (1 - t ^ 2 + t ^ 4 - t ^ 6))) (at t)"
      by (auto intro!: derivative_eq_intros simp: field_simps)
    have "(1 - t ^ 2 + t ^ 4 - t ^ 6) * (1 + t\<^sup>2) = 1 - t ^ 8"
      by (simp add: algebra_simps power2_eq_square power_numeral_reduce)
    then have "(1 - t ^ 2 + t ^ 4 - t ^ 6) * (1 + t\<^sup>2) \<le> 1" by simp
    then have "1 - t ^ 2 + t ^ 4 - t ^ 6 \<le> 1 / (1 + t\<^sup>2)"
      by (simp add: pos_le_divide_eq add_pos_nonneg)
    then have "0 \<le> 1 / (1 + t\<^sup>2) - (1 - t ^ 2 + t ^ 4 - t ^ 6)" by simp
    with d show "\<exists>y. (?f has_real_derivative y) (at t) \<and> 0 \<le> y" by blast
  qed
  then show ?thesis by simp
qed

lemma arctan_upper5:
  fixes x :: real
  assumes "0 \<le> x"
  shows "arctan x \<le> x - x ^ 3 / 3 + x ^ 5 / 5"
proof -
  let ?f = "\<lambda>t::real. (t - t ^ 3 / 3 + t ^ 5 / 5) - arctan t"
  have "?f 0 \<le> ?f x"
  proof (rule DERIV_nonneg_imp_nondecreasing [OF assms])
    fix t :: real
    assume "0 \<le> t" "t \<le> x"
    have d: "(?f has_real_derivative ((1 - t ^ 2 + t ^ 4) - 1 / (1 + t\<^sup>2))) (at t)"
      by (auto intro!: derivative_eq_intros simp: field_simps)
    have "(1 - t ^ 2 + t ^ 4) * (1 + t\<^sup>2) = 1 + t ^ 6"
      by (simp add: algebra_simps power2_eq_square power_numeral_reduce)
    then have "1 \<le> (1 - t ^ 2 + t ^ 4) * (1 + t\<^sup>2)" by simp
    then have "1 / (1 + t\<^sup>2) \<le> 1 - t ^ 2 + t ^ 4"
      by (simp add: pos_divide_le_eq add_pos_nonneg)
    then have "0 \<le> (1 - t ^ 2 + t ^ 4) - 1 / (1 + t\<^sup>2)" by simp
    with d show "\<exists>y. (?f has_real_derivative y) (at t) \<and> 0 \<le> y" by blast
  qed
  then show ?thesis by simp
qed

lemma arctan_lower3:
  fixes x :: real
  assumes "0 \<le> x"
  shows "x - x ^ 3 / 3 \<le> arctan x"
proof -
  let ?f = "\<lambda>t::real. arctan t - (t - t ^ 3 / 3)"
  have "?f 0 \<le> ?f x"
  proof (rule DERIV_nonneg_imp_nondecreasing [OF assms])
    fix t :: real
    assume "0 \<le> t" "t \<le> x"
    have d: "(?f has_real_derivative (1 / (1 + t\<^sup>2) - (1 - t ^ 2))) (at t)"
      by (auto intro!: derivative_eq_intros simp: field_simps)
    have "(1 - t ^ 2) * (1 + t\<^sup>2) = 1 - t ^ 4"
      by (simp add: algebra_simps power2_eq_square power_numeral_reduce)
    then have "(1 - t ^ 2) * (1 + t\<^sup>2) \<le> 1" by simp
    then have "1 - t ^ 2 \<le> 1 / (1 + t\<^sup>2)"
      by (simp add: pos_le_divide_eq add_pos_nonneg)
    then have "0 \<le> 1 / (1 + t\<^sup>2) - (1 - t ^ 2)" by simp
    with d show "\<exists>y. (?f has_real_derivative y) (at t) \<and> 0 \<le> y" by blast
  qed
  then show ?thesis by simp
qed

lemma arctan_upper1:
  fixes x :: real
  assumes "0 \<le> x"
  shows "arctan x \<le> x"
proof -
  let ?f = "\<lambda>t::real. t - arctan t"
  have "?f 0 \<le> ?f x"
  proof (rule DERIV_nonneg_imp_nondecreasing [OF assms])
    fix t :: real
    assume "0 \<le> t" "t \<le> x"
    have d: "(?f has_real_derivative (1 - 1 / (1 + t\<^sup>2))) (at t)"
      by (auto intro!: derivative_eq_intros simp: field_simps)
    have "1 / (1 + t\<^sup>2) \<le> 1"
      by (simp add: pos_divide_le_eq add_pos_nonneg)
    then have "0 \<le> 1 - 1 / (1 + t\<^sup>2)" by simp
    with d show "\<exists>y. (?f has_real_derivative y) (at t) \<and> 0 \<le> y" by blast
  qed
  then show ?thesis by simp
qed

lemma pi_gt_314159: "314159 / 100000 < pi"
proof -
  have m: "pi = 16 * arctan (1 / 5) - 4 * arctan (1 / 239)"
    using machin by simp
  have a: "(1 / 5) - (1 / 5) ^ 3 / 3 + (1 / 5) ^ 5 / 5 - (1 / 5) ^ 7 / 7 \<le> arctan (1 / 5 :: real)"
    by (rule arctan_lower7) simp
  have b: "arctan (1 / 239 :: real) \<le> 1 / 239"
    by (rule arctan_upper1) simp
  have "314159 / 100000 <
        16 * ((1 / 5) - (1 / 5) ^ 3 / 3 + (1 / 5) ^ 5 / 5 - (1 / 5) ^ 7 / 7) - 4 * (1 / 239 :: real)"
    by (simp add: power_numeral_reduce)
  also have "\<dots> \<le> 16 * arctan (1 / 5) - 4 * arctan (1 / 239)"
    by (intro diff_mono mult_left_mono a b) simp_all
  finally show ?thesis using m by simp
qed

lemma pi_lt_31417: "pi < 31417 / 10000"
proof -
  have m: "pi = 16 * arctan (1 / 5) - 4 * arctan (1 / 239)"
    using machin by simp
  have a: "arctan (1 / 5 :: real) \<le> (1 / 5) - (1 / 5) ^ 3 / 3 + (1 / 5) ^ 5 / 5"
    by (rule arctan_upper5) simp
  have b: "(1 / 239) - (1 / 239) ^ 3 / 3 \<le> arctan (1 / 239 :: real)"
    by (rule arctan_lower3) simp
  have "16 * arctan (1 / 5) - 4 * arctan (1 / 239) \<le>
        16 * ((1 / 5) - (1 / 5) ^ 3 / 3 + (1 / 5) ^ 5 / 5) - 4 * ((1 / 239) - (1 / 239) ^ 3 / 3 :: real)"
    by (intro diff_mono mult_left_mono a b) simp_all
  also have "\<dots> < 31417 / 10000"
    by (simp add: power_numeral_reduce)
  finally show ?thesis using m by simp
qed

lemma taylor_step:
  fixes f g :: "real \<Rightarrow> real"
  assumes x: "0 \<le> x"
    and d: "\<And>t. 0 \<le> t \<Longrightarrow> (f has_real_derivative g t) (at t)"
    and g: "\<And>t. 0 \<le> t \<Longrightarrow> 0 \<le> g t"
  shows "f 0 \<le> f x"
proof (rule DERIV_nonneg_imp_nondecreasing [OF x])
  fix t :: real
  assume "0 \<le> t" "t \<le> x"
  then show "\<exists>y. (f has_real_derivative y) (at t) \<and> 0 \<le> y"
    using d g by blast
qed

lemma cos_ge2: "0 \<le> x \<Longrightarrow> 1 - x ^ 2 / 2 \<le> cos (x::real)"
proof -
  assume x: "0 \<le> x"
  have "(\<lambda>t. cos t - (1 - t ^ 2 / 2)) 0 \<le> (\<lambda>t. cos t - (1 - t ^ 2 / 2)) x"
  proof (rule taylor_step [OF x, where g = "\<lambda>t. t - sin t"])
    fix t :: real assume "0 \<le> t"
    show "((\<lambda>t. cos t - (1 - t ^ 2 / 2)) has_real_derivative t - sin t) (at t)"
      by (auto intro!: derivative_eq_intros)
    show "0 \<le> t - sin t" using sin_x_le_x [OF \<open>0 \<le> t\<close>] by simp
  qed
  then show ?thesis by simp
qed

lemma sin_ge3: "0 \<le> x \<Longrightarrow> x - x ^ 3 / 6 \<le> sin (x::real)"
proof -
  assume x: "0 \<le> x"
  have "(\<lambda>t. sin t - (t - t ^ 3 / 6)) 0 \<le> (\<lambda>t. sin t - (t - t ^ 3 / 6)) x"
  proof (rule taylor_step [OF x, where g = "\<lambda>t. cos t - (1 - t ^ 2 / 2)"])
    fix t :: real assume "0 \<le> t"
    show "((\<lambda>t. sin t - (t - t ^ 3 / 6)) has_real_derivative cos t - (1 - t ^ 2 / 2)) (at t)"
      by (auto intro!: derivative_eq_intros)
    show "0 \<le> cos t - (1 - t ^ 2 / 2)" using cos_ge2 [OF \<open>0 \<le> t\<close>] by simp
  qed
  then show ?thesis by simp
qed

lemma cos_le4: "0 \<le> x \<Longrightarrow> cos (x::real) \<le> 1 - x ^ 2 / 2 + x ^ 4 / 24"
proof -
  assume x: "0 \<le> x"
  have "(\<lambda>t. (1 - t ^ 2 / 2 + t ^ 4 / 24) - cos t) 0 \<le> (\<lambda>t. (1 - t ^ 2 / 2 + t ^ 4 / 24) - cos t) x"
  proof (rule taylor_step [OF x, where g = "\<lambda>t. sin t - (t - t ^ 3 / 6)"])
    fix t :: real assume "0 \<le> t"
    show "((\<lambda>t. (1 - t ^ 2 / 2 + t ^ 4 / 24) - cos t) has_real_derivative sin t - (t - t ^ 3 / 6)) (at t)"
      by (auto intro!: derivative_eq_intros)
    show "0 \<le> sin t - (t - t ^ 3 / 6)" using sin_ge3 [OF \<open>0 \<le> t\<close>] by simp
  qed
  then show ?thesis by simp
qed

lemma sin_le5: "0 \<le> x \<Longrightarrow> sin (x::real) \<le> x - x ^ 3 / 6 + x ^ 5 / 120"
proof -
  assume x: "0 \<le> x"
  have "(\<lambda>t. (t - t ^ 3 / 6 + t ^ 5 / 120) - sin t) 0 \<le> (\<lambda>t. (t - t ^ 3 / 6 + t ^ 5 / 120) - sin t) x"
  proof (rule taylor_step [OF x, where g = "\<lambda>t. (1 - t ^ 2 / 2 + t ^ 4 / 24) - cos t"])
    fix t :: real assume "0 \<le> t"
    show "((\<lambda>t. (t - t ^ 3 / 6 + t ^ 5 / 120) - sin t) has_real_derivative
            (1 - t ^ 2 / 2 + t ^ 4 / 24) - cos t) (at t)"
      by (auto intro!: derivative_eq_intros)
    show "0 \<le> (1 - t ^ 2 / 2 + t ^ 4 / 24) - cos t" using cos_le4 [OF \<open>0 \<le> t\<close>] by simp
  qed
  then show ?thesis by simp
qed

lemma cos_ge6: "0 \<le> x \<Longrightarrow> cos_lo x \<le> cos (x::real)"
proof -
  assume x: "0 \<le> x"
  have "(\<lambda>t. cos t - cos_lo t) 0 \<le> (\<lambda>t. cos t - cos_lo t) x"
  proof (rule taylor_step [OF x, where g = "\<lambda>t. (t - t ^ 3 / 6 + t ^ 5 / 120) - sin t"])
    fix t :: real assume "0 \<le> t"
    show "((\<lambda>t. cos t - cos_lo t) has_real_derivative (t - t ^ 3 / 6 + t ^ 5 / 120) - sin t) (at t)"
      unfolding cos_lo_def by (auto intro!: derivative_eq_intros)
    show "0 \<le> (t - t ^ 3 / 6 + t ^ 5 / 120) - sin t" using sin_le5 [OF \<open>0 \<le> t\<close>] by simp
  qed
  then show ?thesis by (simp add: cos_lo_def)
qed

lemma sin_ge7: "0 \<le> x \<Longrightarrow> sin_lo x \<le> sin (x::real)"
proof -
  assume x: "0 \<le> x"
  have "(\<lambda>t. sin t - sin_lo t) 0 \<le> (\<lambda>t. sin t - sin_lo t) x"
  proof (rule taylor_step [OF x, where g = "\<lambda>t. cos t - cos_lo t"])
    fix t :: real assume "0 \<le> t"
    show "((\<lambda>t. sin t - sin_lo t) has_real_derivative cos t - cos_lo t) (at t)"
      unfolding sin_lo_def cos_lo_def by (auto intro!: derivative_eq_intros)
    show "0 \<le> cos t - cos_lo t" using cos_ge6 [OF \<open>0 \<le> t\<close>] by simp
  qed
  then show ?thesis by (simp add: sin_lo_def)
qed

lemma cos_le8: "0 \<le> x \<Longrightarrow> cos (x::real) \<le> cos_hi x"
proof -
  assume x: "0 \<le> x"
  have "(\<lambda>t. cos_hi t - cos t) 0 \<le> (\<lambda>t. cos_hi t - cos t) x"
  proof (rule taylor_step [OF x, where g = "\<lambda>t. sin t - sin_lo t"])
    fix t :: real assume "0 \<le> t"
    show "((\<lambda>t. cos_hi t - cos t) has_real_derivative sin t - sin_lo t) (at t)"
      unfolding sin_lo_def cos_hi_def by (auto intro!: derivative_eq_intros)
    show "0 \<le> sin t - sin_lo t" using sin_ge7 [OF \<open>0 \<le> t\<close>] by simp
  qed
  then show ?thesis by (simp add: cos_hi_def)
qed

lemma sin_le9: "0 \<le> x \<Longrightarrow> sin (x::real) \<le> sin_hi x"
proof -
  assume x: "0 \<le> x"
  have "(\<lambda>t. sin_hi t - sin t) 0 \<le> (\<lambda>t. sin_hi t - sin t) x"
  proof (rule taylor_step [OF x, where g = "\<lambda>t. cos_hi t - cos t"])
    fix t :: real assume "0 \<le> t"
    show "((\<lambda>t. sin_hi t - sin t) has_real_derivative cos_hi t - cos t) (at t)"
      unfolding sin_hi_def cos_hi_def by (auto intro!: derivative_eq_intros)
    show "0 \<le> cos_hi t - cos t" using cos_le8 [OF \<open>0 \<le> t\<close>] by simp
  qed
  then show ?thesis by (simp add: sin_hi_def)
qed

lemma pi_gt_3: "3 < pi"
  using pi_gt_314159 by simp

lemma cos_enclosure:
  assumes "0 \<le> a" "a \<le> x" "x \<le> b" "b \<le> 3"
  shows "cos_lo b \<le> cos x" and "cos x \<le> cos_hi a"
proof -
  have b: "0 \<le> b" "b \<le> pi" and xx: "0 \<le> x" "x \<le> pi" and a: "a \<le> pi"
    using assms pi_gt_3 by linarith+
  have "cos_lo b \<le> cos b" by (rule cos_ge6 [OF b(1)])
  also have "cos b \<le> cos x" using cos_mono_le_eq [OF b xx] assms by simp
  finally show "cos_lo b \<le> cos x" .
  have "cos x \<le> cos a" using cos_mono_le_eq [OF xx assms(1) a] assms by simp
  also have "cos a \<le> cos_hi a" by (rule cos_le8 [OF assms(1)])
  finally show "cos x \<le> cos_hi a" .
qed

lemma sin_enclosure:
  assumes "0 \<le> a" "a \<le> x" "x \<le> b" "b \<le> 3 / 2"
  shows "sin_lo a \<le> sin x" and "sin x \<le> sin_hi b"
proof -
  have h: "3 / 2 < pi / 2" using pi_gt_3 by simp
  have ra: "- (pi / 2) \<le> a" "a \<le> pi / 2" and rx: "- (pi / 2) \<le> x" "x \<le> pi / 2"
    and rb: "- (pi / 2) \<le> b" "b \<le> pi / 2"
    using assms h by linarith+
  have "sin_lo a \<le> sin a" by (rule sin_ge7 [OF assms(1)])
  also have "sin a \<le> sin x" using sin_mono_le_eq [OF ra rx] assms by simp
  finally show "sin_lo a \<le> sin x" .
  have "sin x \<le> sin b" using sin_mono_le_eq [OF rx rb] assms by simp
  also have "sin b \<le> sin_hi b" by (rule sin_le9) (use assms in linarith)
  finally show "sin x \<le> sin_hi b" .
qed

lemma arctan_ge_angle:
  assumes th: "0 \<le> \<theta>" "\<theta> \<le> 3 / 2" and C: "0 < C" "C \<le> cos \<theta>" and S: "sin \<theta> \<le> S"
    and q: "S \<le> q * C"
  shows "\<theta> \<le> arctan q"
proof -
  have h: "3 / 2 < pi / 2" using pi_gt_3 by simp
  have r: "- (pi / 2) < \<theta>" "\<theta> < pi / 2" using th h by linarith+
  have c: "0 < cos \<theta>" using C by linarith
  have s0: "0 \<le> sin \<theta>" using th r by (intro sin_ge_zero) (use pi_gt_3 in linarith)+
  have q0: "0 \<le> q"
  proof (rule ccontr)
    assume "\<not> 0 \<le> q"
    then have "q * C < 0" using C by (simp add: mult_neg_pos)
    with q S s0 show False by linarith
  qed
  have "sin \<theta> \<le> q * C" using S q by linarith
  also have "q * C \<le> q * cos \<theta>" using C q0 by (intro mult_left_mono) simp_all
  finally have "tan \<theta> \<le> q" using c by (simp add: tan_def pos_divide_le_eq)
  then have "arctan (tan \<theta>) \<le> arctan q" by (simp add: arctan_le_iff)
  then show ?thesis using arctan_tan [OF r] by simp
qed

lemma arctan_le_angle:
  assumes th: "0 \<le> \<theta>" "\<theta> \<le> 3 / 2" and C: "cos \<theta> \<le> C" and S: "S \<le> sin \<theta>"
    and q: "q * C \<le> S" "0 \<le> q"
  shows "arctan q \<le> \<theta>"
proof -
  have h: "3 / 2 < pi / 2" using pi_gt_3 by simp
  have r: "- (pi / 2) < \<theta>" "\<theta> < pi / 2" using th h by linarith+
  have c: "0 < cos \<theta>" using r by (intro cos_gt_zero_pi)
  have "q * cos \<theta> \<le> q * C" using C q by (intro mult_left_mono) simp_all
  also have "q * C \<le> sin \<theta>" using S q by linarith
  finally have "q \<le> tan \<theta>" using c by (simp add: tan_def pos_le_divide_eq)
  then have "arctan q \<le> arctan (tan \<theta>)" by (simp add: arctan_le_iff)
  then show ?thesis using arctan_tan [OF r] by simp
qed


section \<open>Properties of the GEO geometry\<close>

lemma radians_enclosure:
  assumes "0 \<le> d"
  shows "d * (314159 / 18000000) \<le> radians d" and "radians d \<le> d * (31417 / 1800000)"
proof -
  have "d * (314159 / 100000) \<le> d * pi" "d * pi \<le> d * (31417 / 10000)"
    using mult_left_mono [of "314159 / 100000" pi d] mult_left_mono [of pi "31417 / 10000" d]
      assms pi_gt_314159 pi_lt_31417 by simp_all
  then show "d * (314159 / 18000000) \<le> radians d" and "radians d \<le> d * (31417 / 1800000)"
    by (simp_all add: radians_def mult.commute mult.left_commute)
qed

lemma degrees_ge_iff: "(e \<le> degrees x) = (radians e \<le> x)"
  by (simp add: degrees_def radians_def field_simps)

lemma degrees_le_iff: "(degrees x \<le> e) = (x \<le> radians e)"
  by (simp add: degrees_def radians_def field_simps)

lemma radians_degrees: "radians (degrees x) = x"
  by (simp add: degrees_def radians_def)

lemma atan2_pos: "0 < x \<Longrightarrow> atan2 y x = arctan (y / x)"
  by (simp add: atan2_def)

lemma atan2_neg_pos: "x < 0 \<Longrightarrow> 0 \<le> y \<Longrightarrow> atan2 y x = pi - arctan (y / - x)"
  by (simp add: atan2_def arctan_minus)

lemma py_mod_small: "0 \<le> a \<Longrightarrow> a < b \<Longrightarrow> py_mod a b = a"
proof -
  assume a: "0 \<le> a" "a < b"
  then have "0 \<le> a / b" "a / b < 1" by simp_all
  then have "\<lfloor>a / b\<rfloor> = 0" by linarith
  then show ?thesis by (simp add: py_mod_def)
qed

subsection \<open>The Dhaka observer and the target at 119.1 degrees east (Bangabandhu-1)\<close>

lemma lat_rad:
  "415567 / 1000000 \<le> radians DHAKA_LAT" "radians DHAKA_LAT \<le> 415583 / 1000000"
  using radians_enclosure [of DHAKA_LAT] by (simp_all add: DHAKA_LAT_def)

lemma dlon_rad:
  "50069 / 100000 \<le> radians (1191 / 10 - DHAKA_LON)"
  "radians (1191 / 10 - DHAKA_LON) \<le> 500709 / 1000000"
  using radians_enclosure [of "1191 / 10 - DHAKA_LON"] by (simp_all add: DHAKA_LON_def)

lemma cos_lat:
  "914881 / 1000000 \<le> cos (radians DHAKA_LAT)" "cos (radians DHAKA_LAT) \<le> 914888 / 1000000"
proof -
  have "cos_lo (415583 / 1000000) \<le> cos (radians DHAKA_LAT)"
    and "cos (radians DHAKA_LAT) \<le> cos_hi (415567 / 1000000)"
    using cos_enclosure [OF _ lat_rad] by simp_all
  moreover have "914881 / 1000000 \<le> cos_lo (415583 / 1000000)"
    by (simp add: cos_lo_def power_divide)
  moreover have "cos_hi (415567 / 1000000) \<le> 914888 / 1000000"
    by (simp add: cos_hi_def power_divide)
  ultimately show "914881 / 1000000 \<le> cos (radians DHAKA_LAT)"
    "cos (radians DHAKA_LAT) \<le> 914888 / 1000000" by linarith+
qed

lemma sin_lat:
  "403708 / 1000000 \<le> sin (radians DHAKA_LAT)" "sin (radians DHAKA_LAT) \<le> 403724 / 1000000"
proof -
  have "sin_lo (415567 / 1000000) \<le> sin (radians DHAKA_LAT)"
    and "sin (radians DHAKA_LAT) \<le> sin_hi (415583 / 1000000)"
    using sin_enclosure [OF _ lat_rad] by simp_all
  moreover have "403708 / 1000000 \<le> sin_lo (415567 / 1000000)"
    by (simp add: sin_lo_def power_divide)
  moreover have "sin_hi (415583 / 1000000) \<le> 403724 / 1000000"
    by (simp add: sin_hi_def power_divide)
  ultimately show "403708 / 1000000 \<le> sin (radians DHAKA_LAT)"
    "sin (radians DHAKA_LAT) \<le> 403724 / 1000000" by linarith+
qed

lemma cos_dlon:
  "877242 / 1000000 \<le> cos (radians (1191 / 10 - DHAKA_LON))"
  "cos (radians (1191 / 10 - DHAKA_LON)) \<le> 877252 / 1000000"
proof -
  have "cos_lo (500709 / 1000000) \<le> cos (radians (1191 / 10 - DHAKA_LON))"
    and "cos (radians (1191 / 10 - DHAKA_LON)) \<le> cos_hi (50069 / 100000)"
    using cos_enclosure [OF _ dlon_rad] by simp_all
  moreover have "877242 / 1000000 \<le> cos_lo (500709 / 1000000)"
    by (simp add: cos_lo_def power_divide)
  moreover have "cos_hi (50069 / 100000) \<le> 877252 / 1000000"
    by (simp add: cos_hi_def power_divide)
  ultimately show "877242 / 1000000 \<le> cos (radians (1191 / 10 - DHAKA_LON))"
    "cos (radians (1191 / 10 - DHAKA_LON)) \<le> 877252 / 1000000" by linarith+
qed

lemma sin_dlon:
  "48003 / 100000 \<le> sin (radians (1191 / 10 - DHAKA_LON))"
  "sin (radians (1191 / 10 - DHAKA_LON)) \<le> 480048 / 1000000"
proof -
  have "sin_lo (50069 / 100000) \<le> sin (radians (1191 / 10 - DHAKA_LON))"
    and "sin (radians (1191 / 10 - DHAKA_LON)) \<le> sin_hi (500709 / 1000000)"
    using sin_enclosure [OF _ dlon_rad] by simp_all
  moreover have "48003 / 100000 \<le> sin_lo (50069 / 100000)"
    by (simp add: sin_lo_def power_divide)
  moreover have "sin_hi (500709 / 1000000) \<le> 480048 / 1000000"
    by (simp add: sin_hi_def power_divide)
  ultimately show "48003 / 100000 \<le> sin (radians (1191 / 10 - DHAKA_LON))"
    "sin (radians (1191 / 10 - DHAKA_LON)) \<le> 480048 / 1000000" by linarith+
qed

lemma quotient_enclosure:
  fixes c :: real
  assumes c: "c1 \<le> c" "c \<le> c2" and r: "0 \<le> r" "r < c1" and c2: "c2 < 1"
    and sq: "0 < sq1" "sq1\<^sup>2 \<le> 1 - c2\<^sup>2" "1 - c1\<^sup>2 \<le> sq2\<^sup>2" "0 < sq2"
  shows "sq1 \<le> sqrt (1 - c\<^sup>2)" and "sqrt (1 - c\<^sup>2) \<le> sq2"
    and "(c1 - r) / sq2 \<le> (c - r) / sqrt (1 - c\<^sup>2)"
    and "(c - r) / sqrt (1 - c\<^sup>2) \<le> (c2 - r) / sq1"
proof -
  have c0: "0 \<le> c1" "0 \<le> c" using c r by linarith+
  have "c1\<^sup>2 \<le> c\<^sup>2" "c\<^sup>2 \<le> c2\<^sup>2"
    using c c0 by (simp_all add: power_mono)
  then have lo: "sq1\<^sup>2 \<le> 1 - c\<^sup>2" and hi: "1 - c\<^sup>2 \<le> sq2\<^sup>2"
    using sq by linarith+
  show s1: "sq1 \<le> sqrt (1 - c\<^sup>2)" using lo by (rule real_le_rsqrt)
  show s2: "sqrt (1 - c\<^sup>2) \<le> sq2" using hi sq(4) by (intro real_le_lsqrt) simp_all
  have pos: "0 < sqrt (1 - c\<^sup>2)" using s1 sq(1) by linarith
  show "(c1 - r) / sq2 \<le> (c - r) / sqrt (1 - c\<^sup>2)"
    using c r s2 pos by (intro frac_le) simp_all
  show "(c - r) / sqrt (1 - c\<^sup>2) \<le> (c2 - r) / sq1"
    using c r s1 sq(1) by (intro frac_le) simp_all
qed

lemma arctan_ge_degrees:
  assumes th: "radians E \<le> tb" "0 \<le> E" "tb \<le> 3 / 2"
    and C: "0 < cos_lo tb" and q: "q1 \<le> q" "sin_hi tb \<le> q1 * cos_lo tb"
  shows "E \<le> degrees (arctan q)"
proof -
  have t0: "0 \<le> radians E" using th(2) by (simp add: radians_def)
  have t1: "radians E \<le> 3 / 2" using th by linarith
  have c: "cos_lo tb \<le> cos (radians E)"
    by (rule cos_enclosure(1) [OF t0 order_refl th(1)]) (use th in linarith)
  have s: "sin (radians E) \<le> sin_hi tb"
    by (rule sin_enclosure(2) [OF t0 order_refl th(1) th(3)])
  have "q1 * cos_lo tb \<le> q * cos_lo tb" using q(1) C by (simp add: mult_right_mono)
  with q(2) have "sin_hi tb \<le> q * cos_lo tb" by linarith
  from arctan_ge_angle [OF t0 t1 C c s this] show ?thesis by (simp add: degrees_ge_iff)
qed

lemma arctan_le_degrees:
  assumes th: "ta \<le> radians E" "0 \<le> ta" "radians E \<le> 3 / 2"
    and q: "0 \<le> q" "q \<le> q2" "q2 * cos_hi ta \<le> sin_lo ta" "0 \<le> cos_hi ta"
  shows "degrees (arctan q) \<le> E"
proof -
  have t0: "0 \<le> radians E" using th by linarith
  have c: "cos (radians E) \<le> cos_hi ta"
    by (rule cos_enclosure(2) [OF th(2) th(1) order_refl]) (use th in linarith)
  have s: "sin_lo ta \<le> sin (radians E)"
    by (rule sin_enclosure(1) [OF th(2) th(1) order_refl th(3)])
  have "q * cos_hi ta \<le> q2 * cos_hi ta" using q by (simp add: mult_right_mono)
  with q(3) have "q * cos_hi ta \<le> sin_lo ta" by linarith
  from arctan_le_angle [OF t0 th(3) c s this q(1)] show ?thesis by (simp add: degrees_le_iff)
qed

lemma slant_upper:
  fixes s :: real
  assumes "s1 \<le> s" "0 \<le> s1" "0 \<le> U"
    and "(R_GEO / R_EARTH)\<^sup>2 - 1 \<le> (U / R_EARTH)\<^sup>2 + 2 * (U / R_EARTH) * s1"
  shows "R_EARTH * (- s + sqrt (s\<^sup>2 + (R_GEO / R_EARTH)\<^sup>2 - 1)) \<le> U"
proof -
  have R: "0 < R_EARTH" by (simp add: R_EARTH_def)
  have u: "0 \<le> U / R_EARTH" using assms(3) R by simp
  have "2 * (U / R_EARTH) * s1 \<le> 2 * (U / R_EARTH) * s"
    using assms(1) u by (intro mult_left_mono) simp_all
  with assms(4) have "s\<^sup>2 + (R_GEO / R_EARTH)\<^sup>2 - 1 \<le> (U / R_EARTH + s)\<^sup>2"
    by (simp add: power2_sum)
  moreover have "0 \<le> U / R_EARTH + s" using u assms by linarith
  ultimately have "sqrt (s\<^sup>2 + (R_GEO / R_EARTH)\<^sup>2 - 1) \<le> U / R_EARTH + s"
    by (intro real_le_lsqrt) simp_all
  then have "- s + sqrt (s\<^sup>2 + (R_GEO / R_EARTH)\<^sup>2 - 1) \<le> U / R_EARTH" by linarith
  then have "R_EARTH * (- s + sqrt (s\<^sup>2 + (R_GEO / R_EARTH)\<^sup>2 - 1)) \<le> R_EARTH * (U / R_EARTH)"
    using R by (intro mult_left_mono) simp_all
  then show ?thesis using R by simp
qed

lemma slant_lower:
  fixes s :: real
  assumes "s \<le> s2" "0 \<le> s" "0 \<le> W"
    and "(W / R_EARTH)\<^sup>2 + 2 * (W / R_EARTH) * s2 \<le> (R_GEO / R_EARTH)\<^sup>2 - 1"
  shows "W \<le> R_EARTH * (- s + sqrt (s\<^sup>2 + (R_GEO / R_EARTH)\<^sup>2 - 1))"
proof -
  have R: "0 < R_EARTH" by (simp add: R_EARTH_def)
  have u: "0 \<le> W / R_EARTH" using assms(3) R by simp
  have "2 * (W / R_EARTH) * s \<le> 2 * (W / R_EARTH) * s2"
    using assms(1) u by (intro mult_left_mono) simp_all
  with assms(4) have "(W / R_EARTH + s)\<^sup>2 \<le> s\<^sup>2 + (R_GEO / R_EARTH)\<^sup>2 - 1"
    by (simp add: power2_sum)
  then have "W / R_EARTH + s \<le> sqrt (s\<^sup>2 + (R_GEO / R_EARTH)\<^sup>2 - 1)"
    by (rule real_le_rsqrt)
  then have "W / R_EARTH \<le> - s + sqrt (s\<^sup>2 + (R_GEO / R_EARTH)\<^sup>2 - 1)" by linarith
  then have "R_EARTH * (W / R_EARTH) \<le> R_EARTH * (- s + sqrt (s\<^sup>2 + (R_GEO / R_EARTH)\<^sup>2 - 1))"
    using R by (intro mult_left_mono) simp_all
  then show ?thesis using R by simp
qed

lemma geo_angles_at_unfold:
  "geo_angles_at lat lon m sat_lon =
     (if geo_cos_gamma lat lon sat_lon \<le> R_EARTH / R_GEO then None
      else if geo_elevation lat lon sat_lon < m then None
      else Some (geo_elevation lat lon sat_lon, geo_azimuth lat lon sat_lon))"
  by (simp add: geo_angles_at_def geo_cos_gamma_def geo_elevation_def geo_azimuth_def Let_def)

lemma bb_cos_gamma:
  "802572 / 1000000 \<le> geo_cos_gamma DHAKA_LAT DHAKA_LON (1191 / 10)"
  "geo_cos_gamma DHAKA_LAT DHAKA_LON (1191 / 10) \<le> 802588 / 1000000"
proof -
  have "914881 / 1000000 * (877242 / 1000000)
        \<le> cos (radians DHAKA_LAT) * cos (radians (1191 / 10 - DHAKA_LON))"
    using cos_lat(1) cos_dlon(1) by (intro mult_mono) simp_all
  then show "802572 / 1000000 \<le> geo_cos_gamma DHAKA_LAT DHAKA_LON (1191 / 10)"
    by (simp add: geo_cos_gamma_def)
  have "cos (radians DHAKA_LAT) * cos (radians (1191 / 10 - DHAKA_LON))
        \<le> 914888 / 1000000 * (877252 / 1000000)"
    using cos_lat cos_dlon by (intro mult_mono) simp_all
  then show "geo_cos_gamma DHAKA_LAT DHAKA_LON (1191 / 10) \<le> 802588 / 1000000"
    by (simp add: geo_cos_gamma_def)
qed

lemma bb_quotient:
  "0 < sqrt (1 - (geo_cos_gamma DHAKA_LAT DHAKA_LON (1191 / 10))\<^sup>2)"
  "1092054 / 1000000 \<le>
     (geo_cos_gamma DHAKA_LAT DHAKA_LON (1191 / 10) - R_EARTH / R_GEO) /
     sqrt (1 - (geo_cos_gamma DHAKA_LAT DHAKA_LON (1191 / 10))\<^sup>2)"
  "(geo_cos_gamma DHAKA_LAT DHAKA_LON (1191 / 10) - R_EARTH / R_GEO) /
     sqrt (1 - (geo_cos_gamma DHAKA_LAT DHAKA_LON (1191 / 10))\<^sup>2) \<le> 1092124 / 1000000"
proof -
  let ?c = "geo_cos_gamma DHAKA_LAT DHAKA_LON (1191 / 10)"
  have P: "0 \<le> R_EARTH / R_GEO" "R_EARTH / R_GEO < 802572 / 1000000"
    "(802588 / 1000000 :: real) < 1" "(0 :: real) < 596533 / 1000000"
    "(596533 / 1000000 :: real)\<^sup>2 \<le> 1 - (802588 / 1000000)\<^sup>2"
    "1 - (802572 / 1000000 :: real)\<^sup>2 \<le> (596556 / 1000000)\<^sup>2"
    "(0 :: real) < 596556 / 1000000"
    by (simp_all add: R_EARTH_def R_GEO_def power_divide)
  note q = quotient_enclosure [OF bb_cos_gamma P]
  show "0 < sqrt (1 - ?c\<^sup>2)" using q(1) by linarith
  have "(1092054 / 1000000 :: real) \<le> (802572 / 1000000 - R_EARTH / R_GEO) / (596556 / 1000000)"
    by (simp add: R_EARTH_def R_GEO_def)
  with q(3) show "1092054 / 1000000 \<le> (?c - R_EARTH / R_GEO) / sqrt (1 - ?c\<^sup>2)"
    by linarith
  have "(802588 / 1000000 - R_EARTH / R_GEO) / (596533 / 1000000) \<le> (1092124 / 1000000 :: real)"
    by (simp add: R_EARTH_def R_GEO_def)
  with q(4) show "(?c - R_EARTH / R_GEO) / sqrt (1 - ?c\<^sup>2) \<le> 1092124 / 1000000"
    by linarith
qed

lemma bb_elevation_arctan:
  "geo_elevation DHAKA_LAT DHAKA_LON (1191 / 10) =
     degrees (arctan ((geo_cos_gamma DHAKA_LAT DHAKA_LON (1191 / 10) - R_EARTH / R_GEO) /
       sqrt (1 - (geo_cos_gamma DHAKA_LAT DHAKA_LON (1191 / 10))\<^sup>2)))"
  by (simp add: geo_elevation_def atan2_pos [OF bb_quotient(1)])

lemma bb_elevation:
  "475 / 10 \<le> geo_elevation DHAKA_LAT DHAKA_LON (1191 / 10)"
  "geo_elevation DHAKA_LAT DHAKA_LON (1191 / 10) \<le> 476 / 10"
proof -
  let ?q = "(geo_cos_gamma DHAKA_LAT DHAKA_LON (1191 / 10) - R_EARTH / R_GEO) /
       sqrt (1 - (geo_cos_gamma DHAKA_LAT DHAKA_LON (1191 / 10))\<^sup>2)"
  have "475 / 10 \<le> degrees (arctan ?q)"
  proof (rule arctan_ge_degrees [where tb = "41453 / 50000" and ?q1.0 = "1092054 / 1000000"])
    show "radians (475 / 10) \<le> 41453 / 50000"
      using radians_enclosure(2) [of "475 / 10"] by simp
    show "1092054 / 1000000 \<le> ?q" by (rule bb_quotient(2))
  qed (simp_all add: cos_lo_def sin_hi_def power_divide)
  then show "475 / 10 \<le> geo_elevation DHAKA_LAT DHAKA_LON (1191 / 10)"
    by (simp only: bb_elevation_arctan)
  have "degrees (arctan ?q) \<le> 476 / 10"
  proof (rule arctan_le_degrees [where ta = "103847 / 125000" and ?q2.0 = "1092124 / 1000000"])
    show "103847 / 125000 \<le> radians (476 / 10)"
      using radians_enclosure(1) [of "476 / 10"] by simp
    show "radians (476 / 10) \<le> 3 / 2"
      using radians_enclosure(2) [of "476 / 10"] by simp
    show "?q \<le> 1092124 / 1000000" by (rule bb_quotient(3))
    show "0 \<le> ?q" using bb_quotient(2) by linarith
  qed (simp_all add: cos_hi_def sin_lo_def power_divide)
  then show "geo_elevation DHAKA_LAT DHAKA_LON (1191 / 10) \<le> 476 / 10"
    by (simp only: bb_elevation_arctan)
qed

lemma bb_azimuth_ratio:
  "1355374 / 1000000 \<le>
     sin (radians (1191 / 10 - DHAKA_LON)) /
     (cos (radians (1191 / 10 - DHAKA_LON)) * sin (radians DHAKA_LAT))"
  "sin (radians (1191 / 10 - DHAKA_LON)) /
     (cos (radians (1191 / 10 - DHAKA_LON)) * sin (radians DHAKA_LAT)) \<le> 1355495 / 1000000"
proof -
  let ?s = "sin (radians (1191 / 10 - DHAKA_LON))"
  let ?d = "cos (radians (1191 / 10 - DHAKA_LON)) * sin (radians DHAKA_LAT)"
  have lo: "877242 / 1000000 * (403708 / 1000000) \<le> ?d"
    using cos_dlon(1) sin_lat(1) by (intro mult_mono) simp_all
  have hi: "?d \<le> 877252 / 1000000 * (403724 / 1000000)"
    using cos_dlon sin_lat by (intro mult_mono) simp_all
  have "(48003 / 100000) / (877252 / 1000000 * (403724 / 1000000)) \<le> ?s / ?d"
    using sin_dlon(1) lo hi by (intro frac_le) simp_all
  then show "1355374 / 1000000 \<le> ?s / ?d" by simp
  have "?s / ?d \<le> (480048 / 1000000) / (877242 / 1000000 * (403708 / 1000000))"
    using sin_dlon lo hi by (intro frac_le) simp_all
  then show "?s / ?d \<le> 1355495 / 1000000" by simp
qed

lemma degrees_pi_minus: "degrees (pi - t) = 180 - degrees t"
  by (simp add: degrees_def field_simps)

lemma bb_azimuth:
  "1264 / 10 \<le> geo_azimuth DHAKA_LAT DHAKA_LON (1191 / 10)"
  "geo_azimuth DHAKA_LAT DHAKA_LON (1191 / 10) \<le> 1265 / 10"
proof -
  let ?s = "sin (radians (1191 / 10 - DHAKA_LON))"
  let ?d = "cos (radians (1191 / 10 - DHAKA_LON)) * sin (radians DHAKA_LAT)"
  have d: "0 < ?d" using cos_dlon(1) sin_lat(1) by (intro mult_pos_pos) linarith+
  have s: "0 \<le> ?s" using sin_dlon(1) by linarith
  have at: "atan2 ?s (- cos (radians (1191 / 10 - DHAKA_LON)) * sin (radians DHAKA_LAT))
            = pi - arctan (?s / ?d)"
    using atan2_neg_pos [of "- ?d" ?s] d s by simp
  have lo: "535 / 10 \<le> degrees (arctan (?s / ?d))"
  proof (rule arctan_ge_degrees [where tb = "93381 / 100000" and ?q1.0 = "1355374 / 1000000"])
    show "radians (535 / 10) \<le> 93381 / 100000"
      using radians_enclosure(2) [of "535 / 10"] by simp
    show "1355374 / 1000000 \<le> ?s / ?d" by (rule bb_azimuth_ratio(1))
  qed (simp_all add: cos_lo_def sin_hi_def power_divide)
  have hi: "degrees (arctan (?s / ?d)) \<le> 536 / 10"
  proof (rule arctan_le_degrees [where ta = "93549 / 100000" and ?q2.0 = "1355495 / 1000000"])
    show "93549 / 100000 \<le> radians (536 / 10)"
      using radians_enclosure(1) [of "536 / 10"] by simp
    show "radians (536 / 10) \<le> 3 / 2"
      using radians_enclosure(2) [of "536 / 10"] by simp
    show "?s / ?d \<le> 1355495 / 1000000" by (rule bb_azimuth_ratio(2))
    show "0 \<le> ?s / ?d" using bb_azimuth_ratio(1) by linarith
  qed (simp_all add: cos_hi_def sin_lo_def power_divide)
  have az: "geo_azimuth DHAKA_LAT DHAKA_LON (1191 / 10) = 180 - degrees (arctan (?s / ?d))"
    unfolding geo_azimuth_def at degrees_pi_minus
    by (rule py_mod_small) (use lo hi in linarith)+
  show "1264 / 10 \<le> geo_azimuth DHAKA_LAT DHAKA_LON (1191 / 10)"
    "geo_azimuth DHAKA_LAT DHAKA_LON (1191 / 10) \<le> 1265 / 10"
    using lo hi by (simp_all add: az)
qed

lemma bb_visible:
  "calculate_geo_angles (1191 / 10) =
     Some (geo_elevation DHAKA_LAT DHAKA_LON (1191 / 10), geo_azimuth DHAKA_LAT DHAKA_LON (1191 / 10))"
proof -
  have "R_EARTH / R_GEO < geo_cos_gamma DHAKA_LAT DHAKA_LON (1191 / 10)"
    using bb_cos_gamma(1) by (simp add: R_EARTH_def R_GEO_def)
  moreover have "MIN_ELEVATION \<le> geo_elevation DHAKA_LAT DHAKA_LON (1191 / 10)"
    using bb_elevation(1) by (simp add: MIN_ELEVATION_def)
  ultimately show ?thesis
    by (simp add: calculate_geo_angles_def geo_angles_at_unfold)
qed

lemma bb_slant:
  "37200 \<le> calculate_slant_range (geo_elevation DHAKA_LAT DHAKA_LON (1191 / 10))"
  "calculate_slant_range (geo_elevation DHAKA_LAT DHAKA_LON (1191 / 10)) \<le> 37300"
proof -
  let ?e = "geo_elevation DHAKA_LAT DHAKA_LON (1191 / 10)"
  have e1: "radians (475 / 10) \<le> radians ?e" and e2: "radians ?e \<le> radians (476 / 10)"
    using bb_elevation by (simp_all add: radians_def)
  have a: "82903 / 100000 \<le> radians ?e"
    using radians_enclosure(1) [of "475 / 10"] e1 by simp
  have b: "radians ?e \<le> 415403 / 500000"
    using radians_enclosure(2) [of "476 / 10"] e2 by simp
  have "sin_lo (82903 / 100000) \<le> sin (radians ?e)" "sin (radians ?e) \<le> sin_hi (415403 / 500000)"
    using sin_enclosure [OF _ a b] by simp_all
  moreover have "737275 / 1000000 \<le> sin_lo (82903 / 100000)"
    by (simp add: sin_lo_def power_divide)
  moreover have "sin_hi (415403 / 500000) \<le> 738476 / 1000000"
    by (simp add: sin_hi_def power_divide)
  ultimately have s: "737275 / 1000000 \<le> sin (radians ?e)" "sin (radians ?e) \<le> 738476 / 1000000"
    by linarith+
  show "37200 \<le> calculate_slant_range ?e"
    unfolding calculate_slant_range_def Let_def
    by (rule slant_lower [OF s(2)]) (use s in \<open>simp_all add: R_EARTH_def R_GEO_def power_divide\<close>)
  show "calculate_slant_range ?e \<le> 37300"
    unfolding calculate_slant_range_def Let_def
    by (rule slant_upper [OF s(1)]) (simp_all add: R_EARTH_def R_GEO_def power_divide)
qed

lemma visibility_angles_unfold:
  "visibility_angles arc_min arc_max lon =
     (if arc_min \<le> lon \<and> lon \<le> arc_max then
        if visibility_cos_gamma lon > 1513 / 10000 then
          if sqrt (1 - (visibility_cos_gamma lon)\<^sup>2) = 0 then Inl ZeroDivisionError
          else Inr (Some (elevation_of_cos_gamma (visibility_cos_gamma lon), visibility_azimuth lon))
        else Inr None
      else Inr None)"
  by (simp add: visibility_angles_def visibility_cos_gamma_def elevation_of_cos_gamma_def
      visibility_azimuth_def Let_def)

lemma vis_lat_cos:
  "914881 / 1000000 \<le> cos (GROUND_STATION_latitude * (314159 / 100000) / 180)"
  "cos (GROUND_STATION_latitude * (314159 / 100000) / 180) \<le> 914889 / 1000000"
proof -
  let ?x = "GROUND_STATION_latitude * (314159 / 100000) / 180"
  have x: "415567 / 1000000 \<le> ?x" "?x \<le> 415568 / 1000000"
    by (simp_all add: GROUND_STATION_latitude_def)
  have "cos_lo (415568 / 1000000) \<le> cos ?x" "cos ?x \<le> cos_hi (415567 / 1000000)"
    using cos_enclosure [OF _ x] by simp_all
  moreover have "914881 / 1000000 \<le> cos_lo (415568 / 1000000)"
    by (simp add: cos_lo_def power_divide)
  moreover have "cos_hi (415567 / 1000000) \<le> 914889 / 1000000"
    by (simp add: cos_hi_def power_divide)
  ultimately show "914881 / 1000000 \<le> cos ?x" "cos ?x \<le> 914889 / 1000000" by linarith+
qed

lemma vis_lat_sin:
  "403708 / 1000000 \<le> sin (GROUND_STATION_latitude * (314159 / 100000) / 180)"
proof -
  let ?x = "GROUND_STATION_latitude * (314159 / 100000) / 180"
  have x: "415567 / 1000000 \<le> ?x" "?x \<le> 415568 / 1000000"
    by (simp_all add: GROUND_STATION_latitude_def)
  have "sin_lo (415567 / 1000000) \<le> sin ?x"
    using sin_enclosure(1) [OF _ x] by simp
  moreover have "403708 / 1000000 \<le> sin_lo (415567 / 1000000)"
    by (simp add: sin_lo_def power_divide)
  ultimately show ?thesis by linarith
qed

lemma visibility_cos_gamma_lt_1: "\<bar>visibility_cos_gamma lon\<bar> < 1"
proof -
  let ?a = "cos (GROUND_STATION_latitude * (314159 / 100000) / 180)"
  let ?b = "cos (\<bar>lon - GROUND_STATION_longitude\<bar> * (314159 / 100000) / 180)"
  have a: "0 \<le> ?a" "?a \<le> 914889 / 1000000" using vis_lat_cos by linarith+
  have b: "\<bar>?b\<bar> \<le> 1" by (rule abs_cos_le_one)
  have "\<bar>?a * ?b\<bar> = ?a * \<bar>?b\<bar>" using a by (simp add: abs_mult)
  also have "\<dots> \<le> 914889 / 1000000 * 1" using a b by (intro mult_mono) simp_all
  finally show ?thesis by (simp add: visibility_cos_gamma_def)
qed

lemma visibility_sqrt_pos: "0 < sqrt (1 - (visibility_cos_gamma lon)\<^sup>2)"
proof -
  have "(visibility_cos_gamma lon)\<^sup>2 < 1"
    using visibility_cos_gamma_lt_1 [of lon] by (simp add: abs_square_less_1)
  then show ?thesis by simp
qed

lemma visibility_angles_result:
  "visibility_angles arc_min arc_max lon =
     (if arc_min \<le> lon \<and> lon \<le> arc_max \<and> visibility_cos_gamma lon > 1513 / 10000
      then Inr (Some (elevation_of_cos_gamma (visibility_cos_gamma lon), visibility_azimuth lon))
      else Inr None)"
  using visibility_sqrt_pos [of lon] by (simp add: visibility_angles_unfold)

lemma geo_cos_gamma_lt_1: "\<bar>geo_cos_gamma DHAKA_LAT DHAKA_LON lon\<bar> < 1"
proof -
  let ?a = "cos (radians DHAKA_LAT)"
  let ?b = "cos (radians (lon - DHAKA_LON))"
  have a: "0 \<le> ?a" "?a \<le> 914888 / 1000000" using cos_lat by linarith+
  have b: "\<bar>?b\<bar> \<le> 1" by (rule abs_cos_le_one)
  have "\<bar>?a * ?b\<bar> = ?a * \<bar>?b\<bar>" using a by (simp add: abs_mult)
  also have "\<dots> \<le> 914888 / 1000000 * 1" using a b by (intro mult_mono) simp_all
  finally show ?thesis by (simp add: geo_cos_gamma_def)
qed

lemma geo_elevation_arctan:
  "geo_elevation DHAKA_LAT DHAKA_LON lon =
     elevation_of_cos_gamma (geo_cos_gamma DHAKA_LAT DHAKA_LON lon)"
proof -
  have "(geo_cos_gamma DHAKA_LAT DHAKA_LON lon)\<^sup>2 < 1"
    using geo_cos_gamma_lt_1 [of lon] by (simp add: abs_square_less_1)
  then have "0 < sqrt (1 - (geo_cos_gamma DHAKA_LAT DHAKA_LON lon)\<^sup>2)" by simp
  then show ?thesis
    by (simp add: geo_elevation_def elevation_of_cos_gamma_def atan2_pos R_EARTH_def R_GEO_def)
qed

lemma elevation_of_cos_gamma_strict_mono:
  assumes "6371 / 42164 < a" "a < b" "b < 1"
  shows "elevation_of_cos_gamma a < elevation_of_cos_gamma b"
proof -
  have a0: "0 < a" using assms by simp
  have "a\<^sup>2 < b\<^sup>2" using assms a0 by (intro power_strict_mono) simp_all
  moreover have "b\<^sup>2 < 1" using assms a0 by (simp add: power_less_one_iff abs_square_less_1)
  ultimately have sq: "0 < sqrt (1 - b\<^sup>2)" "sqrt (1 - b\<^sup>2) \<le> sqrt (1 - a\<^sup>2)"
    by simp_all
  have "(a - 6371 / 42164) / sqrt (1 - a\<^sup>2) < (b - 6371 / 42164) / sqrt (1 - b\<^sup>2)"
    using assms sq by (intro frac_less) simp_all
  then have "arctan ((a - 6371 / 42164) / sqrt (1 - a\<^sup>2))
           < arctan ((b - 6371 / 42164) / sqrt (1 - b\<^sup>2))"
    by (simp add: arctan_less_iff)
  then show ?thesis
    by (simp add: elevation_of_cos_gamma_def degrees_def divide_strict_right_mono)
qed

lemma elevation_of_cos_gamma_inj:
  assumes "6371 / 42164 < a" "a < 1" "6371 / 42164 < b" "b < 1"
  shows "(elevation_of_cos_gamma a = elevation_of_cos_gamma b) = (a = b)"
proof
  assume e: "elevation_of_cos_gamma a = elevation_of_cos_gamma b"
  show "a = b"
  proof (rule ccontr)
    assume "a \<noteq> b"
    then consider "a < b" | "b < a" by linarith
    then show False
    proof cases
      case 1
      from elevation_of_cos_gamma_strict_mono [OF assms(1) 1 assms(4)] e show False by simp
    next
      case 2
      from elevation_of_cos_gamma_strict_mono [OF assms(3) 2 assms(2)] e show False by simp
    qed
  qed
qed simp

lemma cos_abs_scaled: "cos (\<bar>x\<bar> * a / b) = cos (x * a / (b::real))"
proof (cases "0 \<le> x")
  case True
  then show ?thesis by simp
next
  case False
  then have "\<bar>x\<bar> * a / b = - (x * a / b)" by simp
  then show ?thesis by (simp only: cos_minus)
qed

text \<open>
  Claim C4 as stated (elevation in [48, 50], azimuth in [90, 110]) fails: the elevation
  is below 48 degrees and the azimuth above 110 degrees.
\<close>

theorem geo_scenario_counterexample:
  "calculate_geo_angles (1191 / 10) =
     Some (geo_elevation DHAKA_LAT DHAKA_LON (1191 / 10),
           geo_azimuth DHAKA_LAT DHAKA_LON (1191 / 10)) \<and>
   geo_elevation DHAKA_LAT DHAKA_LON (1191 / 10) < 48 \<and>
   110 < geo_azimuth DHAKA_LAT DHAKA_LON (1191 / 10)"
  using bb_visible bb_elevation(2) bb_azimuth(1) by simp

text \<open>
  Claim C4, as the code has it. For the Dhaka observer and the target at 119.1 degrees
  east the elevation lies in [47.5, 47.6] degrees, the azimuth in [126.4, 126.5] degrees
  and the slant range in [37200, 37300] km.
\<close>

theorem geo_scenario_values:
  "\<exists>e a. calculate_geo_angles (1191 / 10) = Some (e, a) \<and>
     475 / 10 \<le> e \<and> e \<le> 476 / 10 \<and>
     1264 / 10 \<le> a \<and> a \<le> 1265 / 10 \<and>
     37200 \<le> calculate_slant_range e \<and> calculate_slant_range e \<le> 37300"
  using bb_visible bb_elevation bb_azimuth bb_slant by blast

lemma elevation_implementations_differ:
  "geo_elevation DHAKA_LAT DHAKA_LON (1191 / 10) <
   elevation_of_cos_gamma (visibility_cos_gamma (1191 / 10))"
proof -
  let ?L = "radians DHAKA_LAT" and ?D = "radians (1191 / 10 - DHAKA_LON)"
  let ?L' = "GROUND_STATION_latitude * (314159 / 100000) / 180"
  let ?D' = "\<bar>1191 / 10 - GROUND_STATION_longitude\<bar> * (314159 / 100000) / 180"
  have L: "0 \<le> ?L'" "?L' < ?L" "?L \<le> pi"
    using pi_gt_314159 lat_rad(2) pi_gt_3
    by (simp_all add: radians_def DHAKA_LAT_def GROUND_STATION_latitude_def)
  have D: "0 \<le> ?D'" "?D' < ?D" "?D \<le> pi"
    using pi_gt_314159 dlon_rad(2) pi_gt_3
    by (simp_all add: radians_def DHAKA_LON_def GROUND_STATION_longitude_def)
  have cl: "cos ?L < cos ?L'" by (rule cos_monotone_0_pi [OF L])
  have cd: "cos ?D < cos ?D'" by (rule cos_monotone_0_pi [OF D])
  have "cos ?L * cos ?D < cos ?L' * cos ?D'"
    using cl cd cos_lat(1) cos_dlon(1) by (intro mult_strict_mono) simp_all
  then have lt: "geo_cos_gamma DHAKA_LAT DHAKA_LON (1191 / 10) < visibility_cos_gamma (1191 / 10)"
    by (simp add: geo_cos_gamma_def visibility_cos_gamma_def)
  have r: "6371 / 42164 < geo_cos_gamma DHAKA_LAT DHAKA_LON (1191 / 10)"
    using bb_cos_gamma(1) by simp
  have u: "visibility_cos_gamma (1191 / 10) < 1"
    using visibility_cos_gamma_lt_1 [of "1191 / 10"] by simp
  from elevation_of_cos_gamma_strict_mono [OF r lt u]
  show ?thesis by (simp add: geo_elevation_arctan)
qed

lemma vis_1191:
  "visibility_angles 40 160 (1191 / 10) =
     Inr (Some (elevation_of_cos_gamma (visibility_cos_gamma (1191 / 10)),
                visibility_azimuth (1191 / 10)))"
proof -
  have "geo_cos_gamma DHAKA_LAT DHAKA_LON (1191 / 10) < visibility_cos_gamma (1191 / 10)"
  proof (rule ccontr)
    assume n: "\<not> geo_cos_gamma DHAKA_LAT DHAKA_LON (1191 / 10) < visibility_cos_gamma (1191 / 10)"
    have u: "geo_cos_gamma DHAKA_LAT DHAKA_LON (1191 / 10) < 1"
      using geo_cos_gamma_lt_1 [of "1191 / 10"] by simp
    have v: "visibility_cos_gamma (1191 / 10) < 1"
      using visibility_cos_gamma_lt_1 [of "1191 / 10"] by simp
    have r: "6371 / 42164 < geo_cos_gamma DHAKA_LAT DHAKA_LON (1191 / 10)"
      using bb_cos_gamma(1) by simp
    show False
    proof (cases "visibility_cos_gamma (1191 / 10) \<le> 6371 / 42164")
      case True
      have "0 \<le> \<bar>1191 / 10 - GROUND_STATION_longitude\<bar> * (314159 / 100000) / 180"
        "\<bar>1191 / 10 - GROUND_STATION_longitude\<bar> * (314159 / 100000) / 180 \<le> 1"
        by (simp_all add: GROUND_STATION_longitude_def)
      from cos_enclosure(1) [OF this(1) order_refl this(2)]
      have "cos_lo 1 \<le> cos (\<bar>1191 / 10 - GROUND_STATION_longitude\<bar> * (314159 / 100000) / 180)"
        by simp
      then have "1 / 2 \<le> cos (\<bar>1191 / 10 - GROUND_STATION_longitude\<bar> * (314159 / 100000) / 180)"
        by (simp add: cos_lo_def)
      then have "914881 / 1000000 * (1 / 2) \<le> visibility_cos_gamma (1191 / 10)"
        unfolding visibility_cos_gamma_def using vis_lat_cos(1) by (intro mult_mono) simp_all
      with True show False by simp
    next
      case False
      then have r': "6371 / 42164 < visibility_cos_gamma (1191 / 10)" by simp
      from n consider "visibility_cos_gamma (1191 / 10) = geo_cos_gamma DHAKA_LAT DHAKA_LON (1191 / 10)"
        | "visibility_cos_gamma (1191 / 10) < geo_cos_gamma DHAKA_LAT DHAKA_LON (1191 / 10)"
        by linarith
      then show False
      proof cases
        case 1
        with elevation_implementations_differ show False by (simp add: geo_elevation_arctan)
      next
        case 2
        from elevation_of_cos_gamma_strict_mono [OF r' 2 u] elevation_implementations_differ
        show False by (simp add: geo_elevation_arctan)
      qed
    qed
  qed
  with bb_cos_gamma(1) have "1513 / 10000 < visibility_cos_gamma (1191 / 10)" by simp
  then show ?thesis by (simp add: visibility_angles_result)
qed

text \<open>
  Claim C10 as stated (the two elevations are equal) fails at 119.1 degrees east: both
  implementations give a result and the elevations differ.
\<close>

theorem geo_elevation_implementations_counterexample:
  "calculate_geo_angles (1191 / 10) =
     Some (geo_elevation DHAKA_LAT DHAKA_LON (1191 / 10),
           geo_azimuth DHAKA_LAT DHAKA_LON (1191 / 10)) \<and>
   visibility_angles 40 160 (1191 / 10) =
     Inr (Some (elevation_of_cos_gamma (visibility_cos_gamma (1191 / 10)),
                visibility_azimuth (1191 / 10))) \<and>
   geo_elevation DHAKA_LAT DHAKA_LON (1191 / 10) \<noteq>
     elevation_of_cos_gamma (visibility_cos_gamma (1191 / 10))"
  using bb_visible vis_1191 elevation_implementations_differ by simp

text \<open>
  Claim C10, as the code has it. Where both implementations give a result, each
  elevation is the same function of its own cosine of the central angle: the
  \<open>atan2\<close> form and the arctangent of the quotient agree, and the absolute value of
  the longitude difference does not change the cosine. The two cosines are built on
  different degree-to-radian factors (\<open>pi / 180\<close> and \<open>3.14159 / 180\<close>), and the
  elevations are equal exactly when the cosines are.
\<close>

theorem geo_elevation_implementations:
  assumes "calculate_geo_angles lon = Some (e1, a1)"
    and "visibility_angles arc_min arc_max lon = Inr (Some (e2, a2))"
  shows "e1 = elevation_of_cos_gamma (cos (DHAKA_LAT * (pi / 180)) * cos ((lon - DHAKA_LON) * (pi / 180))) \<and>
         e2 = elevation_of_cos_gamma
                (cos (GROUND_STATION_latitude * (314159 / 100000) / 180) *
                 cos ((lon - GROUND_STATION_longitude) * (314159 / 100000) / 180)) \<and>
         (e1 = e2) =
           (cos (DHAKA_LAT * (pi / 180)) * cos ((lon - DHAKA_LON) * (pi / 180)) =
            cos (GROUND_STATION_latitude * (314159 / 100000) / 180) *
            cos ((lon - GROUND_STATION_longitude) * (314159 / 100000) / 180))"
proof -
  let ?c1 = "geo_cos_gamma DHAKA_LAT DHAKA_LON lon" and ?c2 = "visibility_cos_gamma lon"
  have c1: "?c1 = cos (DHAKA_LAT * (pi / 180)) * cos ((lon - DHAKA_LON) * (pi / 180))"
    by (simp add: geo_cos_gamma_def radians_def)
  have "cos (\<bar>lon - GROUND_STATION_longitude\<bar> * (314159 / 100000) / 180) =
        cos ((lon - GROUND_STATION_longitude) * (314159 / 100000) / 180)"
    by (rule cos_abs_scaled)
  then have c2: "?c2 = cos (GROUND_STATION_latitude * (314159 / 100000) / 180) *
                 cos ((lon - GROUND_STATION_longitude) * (314159 / 100000) / 180)"
    by (simp add: visibility_cos_gamma_def)
  from assms(1) have r1: "6371 / 42164 < ?c1" and e1: "e1 = geo_elevation DHAKA_LAT DHAKA_LON lon"
    by (auto simp: calculate_geo_angles_def geo_angles_at_unfold R_EARTH_def R_GEO_def
        split: if_splits)
  from assms(2) have r2: "1513 / 10000 < ?c2" and e2: "e2 = elevation_of_cos_gamma ?c2"
    by (auto simp: visibility_angles_result split: if_splits)
  have r2': "6371 / 42164 < ?c2" using r2 by simp
  have u1: "?c1 < 1" using geo_cos_gamma_lt_1 [of lon] by simp
  have u2: "?c2 < 1" using visibility_cos_gamma_lt_1 [of lon] by simp
  have E1: "e1 = elevation_of_cos_gamma ?c1" by (simp add: e1 geo_elevation_arctan)
  have "(e1 = e2) = (?c1 = ?c2)"
    unfolding E1 e2 by (rule elevation_of_cos_gamma_inj [OF r1 u1 r2' u2])
  then show ?thesis using E1 e2 unfolding c1 c2 by simp
qed

theorem geo_elevation_implementations_witness:
  "geo_elevation DHAKA_LAT DHAKA_LON (1191 / 10) =
     elevation_of_cos_gamma (cos (DHAKA_LAT * (pi / 180)) * cos ((1191 / 10 - DHAKA_LON) * (pi / 180))) \<and>
   cos (DHAKA_LAT * (pi / 180)) * cos ((1191 / 10 - DHAKA_LON) * (pi / 180)) \<noteq>
     cos (GROUND_STATION_latitude * (314159 / 100000) / 180) *
     cos ((1191 / 10 - GROUND_STATION_longitude) * (314159 / 100000) / 180)"
  using geo_elevation_implementations [OF bb_visible vis_1191] elevation_implementations_differ
  by simp

lemma survey_entry_Some:
  "survey_entry (operator, name, lon, bands, coverage) = Some row \<Longrightarrow>
   \<exists>elevation azimuth. calculate_geo_angles lon = Some (elevation, azimuth) \<and>
     row_priority row = priority_of (priority_score_of elevation bands coverage) \<and>
     row_priority_score row = py_round (priority_score_of elevation bands coverage) 1"
proof (cases "calculate_geo_angles lon")
  case None
  assume "survey_entry (operator, name, lon, bands, coverage) = Some row"
  with None show ?thesis by (simp add: survey_entry_def)
next
  case (Some p)
  assume a: "survey_entry (operator, name, lon, bands, coverage) = Some row"
  obtain elevation azimuth where p: "p = (elevation, azimuth)" by (cases p) auto
  from a have "row_priority row = priority_of (priority_score_of elevation bands coverage) \<and>
     row_priority_score row = py_round (priority_score_of elevation bands coverage) 1"
    unfolding survey_entry_def by (simp add: Some p Let_def) (cases row, auto)
  then show ?thesis using Some p by blast
qed

lemma priority_of_tiers:
  "(priority_of s = HIGH) = (7 \<le> s)"
  "(priority_of s = MEDIUM) = (4 \<le> s \<and> s < 7)"
  "(priority_of s = LOW) = (s < 4)"
  by (auto simp: priority_of_def)

lemma priority_score_of_sum:
  "priority_score_of elevation bands coverage =
       min (elevation / 10) 5 +
       (if str_in ''Ku'' bands then 3 else 0) +
       (if str_in ''Bangladesh'' coverage \<or> str_in ''South Asia'' coverage then 2 else 0) +
       (if str_in ''India'' coverage then 1 else 0)"
  unfolding priority_score_of_def Let_def by simp


lemma bangabandhu_tags:
  "str_in ''Ku'' ''C/Ku''" "str_in ''Bangladesh'' ''Bangladesh, South Asia''"
  "\<not> str_in ''India'' ''Bangladesh, South Asia''"
  by simp_all


lemma visibility_mirror:
  "visibility_cos_gamma (2 * GROUND_STATION_longitude - lon) = visibility_cos_gamma lon"
  "visibility_azimuth (2 * GROUND_STATION_longitude - lon) = visibility_azimuth lon"
proof -
  have "\<bar>2 * GROUND_STATION_longitude - lon - GROUND_STATION_longitude\<bar> =
        \<bar>lon - GROUND_STATION_longitude\<bar>" by simp
  then show "visibility_cos_gamma (2 * GROUND_STATION_longitude - lon) = visibility_cos_gamma lon"
    "visibility_azimuth (2 * GROUND_STATION_longitude - lon) = visibility_azimuth lon"
    by (simp_all only: visibility_cos_gamma_def visibility_azimuth_def)
qed

lemma vis_83:
  "1513 / 10000 < visibility_cos_gamma 83"
  "90 < visibility_azimuth 83" "visibility_azimuth 83 < 180"
proof -
  let ?x = "\<bar>83 - GROUND_STATION_longitude\<bar> * (314159 / 100000) / 180"
  let ?l = "GROUND_STATION_latitude * (314159 / 100000) / 180"
  have x: "12937 / 100000 \<le> ?x" "?x \<le> 12938 / 100000"
    by (simp_all add: GROUND_STATION_longitude_def)
  have "cos_lo (12938 / 100000) \<le> cos ?x"
    using cos_enclosure(1) [OF _ x] by simp
  moreover have "99 / 100 \<le> cos_lo (12938 / 100000)" by (simp add: cos_lo_def power_divide)
  ultimately have c: "99 / 100 \<le> cos ?x" by linarith
  have "sin_lo (12937 / 100000) \<le> sin ?x"
    using sin_enclosure(1) [OF _ x] by simp
  moreover have "129 / 1000 \<le> sin_lo (12937 / 100000)" by (simp add: sin_lo_def power_divide)
  ultimately have s: "129 / 1000 \<le> sin ?x" by linarith
  have "914881 / 1000000 * (99 / 100) \<le> cos ?l * cos ?x"
    using vis_lat_cos(1) c by (intro mult_mono) simp_all
  then show "1513 / 10000 < visibility_cos_gamma 83"
    by (simp add: visibility_cos_gamma_def)
  let ?d = "cos ?x * sin ?l"
  have d: "0 < ?d" using c vis_lat_sin by (intro mult_pos_pos) linarith+
  have s0: "0 < sin ?x" using s by linarith
  have at: "atan2 (sin ?x) (- cos ?x * sin ?l) = pi - arctan (sin ?x / ?d)"
    using atan2_neg_pos [of "- ?d" "sin ?x"] d s0 by simp
  have w: "0 < sin ?x / ?d" using s0 d by simp
  have a0: "0 < arctan (sin ?x / ?d)" using w by (simp add: arctan_less_iff [of 0, simplified])
  have a1: "arctan (sin ?x / ?d) < pi / 2" by (rule arctan_ubound)
  have dg: "0 < degrees (arctan (sin ?x / ?d))" "degrees (arctan (sin ?x / ?d)) < 90"
    using a0 a1 by (simp_all add: degrees_def field_simps)
  have az: "visibility_azimuth 83 = 180 - degrees (arctan (sin ?x / ?d))"
    unfolding visibility_azimuth_def at degrees_pi_minus
    by (rule py_mod_small) (use dg in linarith)+
  show "90 < visibility_azimuth 83" "visibility_azimuth 83 < 180"
    using dg by (simp_all add: az)
qed

text \<open>
  The loop of \<open>calculate_geo_visibility\<close> takes the absolute value of the longitude
  difference before the azimuth is computed: at 83 degrees east and at the longitude
  mirrored about the observer the loop body gives the same azimuth, below 180 degrees.
\<close>

lemma visibility_azimuth_from_abs:
  "visibility_angles 40 160 83 =
     Inr (Some (elevation_of_cos_gamma (visibility_cos_gamma 83), visibility_azimuth 83)) \<and>
   visibility_angles 40 160 (2 * GROUND_STATION_longitude - 83) =
     Inr (Some (elevation_of_cos_gamma (visibility_cos_gamma 83), visibility_azimuth 83)) \<and>
   visibility_azimuth 83 < 180 \<and>
   py_mod (visibility_azimuth 83 + visibility_azimuth 83) 360 \<noteq> 0"
proof -
  have a: "visibility_angles 40 160 83 =
     Inr (Some (elevation_of_cos_gamma (visibility_cos_gamma 83), visibility_azimuth 83))"
    using vis_83(1) by (simp add: visibility_angles_result)
  have arc: "40 \<le> 2 * GROUND_STATION_longitude - 83" "2 * GROUND_STATION_longitude - 83 \<le> 160"
    by (simp_all add: GROUND_STATION_longitude_def)
  have b: "visibility_angles 40 160 (2 * GROUND_STATION_longitude - 83) =
     Inr (Some (elevation_of_cos_gamma (visibility_cos_gamma 83), visibility_azimuth 83))"
    using vis_83(1) arc by (simp add: visibility_angles_result visibility_mirror)
  have "py_mod (visibility_azimuth 83 + visibility_azimuth 83) 360 =
        visibility_azimuth 83 + visibility_azimuth 83"
    by (rule py_mod_small) (use vis_83 in linarith)+
  then have c: "py_mod (visibility_azimuth 83 + visibility_azimuth 83) 360 \<noteq> 0"
    using vis_83(2) by simp
  show ?thesis using a b c vis_83(3) by simp
qed

lemma atan2_minus: "y \<noteq> 0 \<or> 0 < x \<Longrightarrow> atan2 (- y) x = - atan2 y x"
  by (auto simp: atan2_def arctan_minus)

lemma py_mod_multiple: "py_mod (360 * of_int n) 360 = 0"
  by (simp add: py_mod_def)

lemma py_mod_sum_opposite: "py_mod (py_mod A 360 + py_mod (- A) 360) 360 = 0"
proof -
  have "py_mod A 360 + py_mod (- A) 360 = 360 * of_int (- \<lfloor>A / 360\<rfloor> - \<lfloor>- A / 360\<rfloor>)"
    by (simp add: py_mod_def algebra_simps)
  then show ?thesis by (simp only: py_mod_multiple)
qed

text \<open>
  \<open>calculate_geo_angles\<close> keeps the sign of the longitude difference: for two
  longitudes mirrored about the observer the elevations are equal and the azimuths add
  up to a multiple of 360 degrees.
\<close>

lemma geo_angles_mirror:
  assumes "calculate_geo_angles (DHAKA_LON + d) = Some (e1, a1)"
    and "calculate_geo_angles (DHAKA_LON - d) = Some (e2, a2)"
  shows "e1 = e2 \<and> py_mod (a1 + a2) 360 = 0"
proof -
  let ?L = "radians DHAKA_LAT" and ?t = "radians d"
  have rm: "radians (- d) = - ?t"
    by (simp add: radians_def)
  have cg: "geo_cos_gamma DHAKA_LAT DHAKA_LON (DHAKA_LON - d) =
            geo_cos_gamma DHAKA_LAT DHAKA_LON (DHAKA_LON + d)"
    by (simp add: geo_cos_gamma_def rm)
  from assms(1) have v: "R_EARTH / R_GEO < geo_cos_gamma DHAKA_LAT DHAKA_LON (DHAKA_LON + d)"
    and e1: "e1 = geo_elevation DHAKA_LAT DHAKA_LON (DHAKA_LON + d)"
    and a1: "a1 = geo_azimuth DHAKA_LAT DHAKA_LON (DHAKA_LON + d)"
    by (auto simp: calculate_geo_angles_def geo_angles_at_unfold split: if_splits)
  from assms(2) have e2: "e2 = geo_elevation DHAKA_LAT DHAKA_LON (DHAKA_LON - d)"
    and a2: "a2 = geo_azimuth DHAKA_LAT DHAKA_LON (DHAKA_LON - d)"
    by (auto simp: calculate_geo_angles_def geo_angles_at_unfold split: if_splits)
  have "e1 = e2" by (simp add: e1 e2 geo_elevation_def cg)
  have cL: "0 < cos ?L" using cos_lat(1) by linarith
  have sL: "0 < sin ?L" using sin_lat(1) by linarith
  have "0 < cos ?L * cos ?t"
    using v by (simp add: geo_cos_gamma_def rm R_EARTH_def R_GEO_def)
  then have ct: "0 < cos ?t" using cL by (simp add: zero_less_mult_iff)
  have x: "- cos ?t * sin ?L < 0" using ct sL by (simp add: mult_pos_pos)
  let ?A = "degrees (atan2 (sin ?t) (- cos ?t * sin ?L))"
  have A1: "a1 = py_mod ?A 360" by (simp add: a1 geo_azimuth_def rm)
  have A2: "a2 = py_mod (degrees (atan2 (- sin ?t) (- cos ?t * sin ?L))) 360"
    by (simp add: a2 geo_azimuth_def rm)
  have "py_mod (a1 + a2) 360 = 0"
  proof (cases "sin ?t = 0")
    case True
    have "atan2 0 (- cos ?t * sin ?L) = pi" using x by (simp add: atan2_def)
    then have "?A = 180" by (simp add: True degrees_def)
    then have "a1 = 180" "a2 = 180" by (simp_all add: A1 A2 True py_mod_small)
    then have "a1 + a2 = 360 * of_int 1" by simp
    then show ?thesis by (simp only: py_mod_multiple)
  next
    case False
    then have "atan2 (- sin ?t) (- cos ?t * sin ?L) = - atan2 (sin ?t) (- cos ?t * sin ?L)"
      by (intro atan2_minus) simp
    then have "a2 = py_mod (- ?A) 360" by (simp add: A2 degrees_def)
    then show ?thesis by (simp only: A1 py_mod_sum_opposite)
  qed
  with \<open>e1 = e2\<close> show ?thesis by simp
qed


subsection \<open>The target at 53 degrees east (Express AM6)\<close>

lemma west_rad:
  "65297 / 100000 \<le> radians (DHAKA_LON - 53)" "radians (DHAKA_LON - 53) \<le> 652994 / 1000000"
  using radians_enclosure [of "DHAKA_LON - 53"] by (simp_all add: DHAKA_LON_def)

lemma west_cos_eq: "cos (radians (53 - DHAKA_LON)) = cos (radians (DHAKA_LON - 53))"
proof -
  have "53 - DHAKA_LON = - (DHAKA_LON - 53)" by simp
  then have "radians (53 - DHAKA_LON) = - radians (DHAKA_LON - 53)"
    by (simp only: radians_def mult_minus_left)
  then show ?thesis by (simp only: cos_minus)
qed

lemma west_cos:
  "794267 / 1000000 \<le> cos (radians (53 - DHAKA_LON))"
  "cos (radians (53 - DHAKA_LON)) \<le> 794283 / 1000000"
proof -
  have "cos_lo (652994 / 1000000) \<le> cos (radians (DHAKA_LON - 53))"
    and "cos (radians (DHAKA_LON - 53)) \<le> cos_hi (65297 / 100000)"
    using cos_enclosure [OF _ west_rad] by simp_all
  moreover have "794267 / 1000000 \<le> cos_lo (652994 / 1000000)"
    by (simp add: cos_lo_def power_divide)
  moreover have "cos_hi (65297 / 100000) \<le> 794283 / 1000000"
    by (simp add: cos_hi_def power_divide)
  ultimately show "794267 / 1000000 \<le> cos (radians (53 - DHAKA_LON))"
    "cos (radians (53 - DHAKA_LON)) \<le> 794283 / 1000000"
    unfolding west_cos_eq by linarith+
qed

lemma west_cos_gamma:
  "726659 / 1000000 \<le> geo_cos_gamma DHAKA_LAT DHAKA_LON 53"
  "geo_cos_gamma DHAKA_LAT DHAKA_LON 53 \<le> 726680 / 1000000"
proof -
  have "914881 / 1000000 * (794267 / 1000000)
        \<le> cos (radians DHAKA_LAT) * cos (radians (53 - DHAKA_LON))"
    using cos_lat(1) west_cos(1) by (intro mult_mono) simp_all
  then show "726659 / 1000000 \<le> geo_cos_gamma DHAKA_LAT DHAKA_LON 53"
    by (simp add: geo_cos_gamma_def)
  have "cos (radians DHAKA_LAT) * cos (radians (53 - DHAKA_LON))
        \<le> 914888 / 1000000 * (794283 / 1000000)"
    using cos_lat west_cos by (intro mult_mono) simp_all
  then show "geo_cos_gamma DHAKA_LAT DHAKA_LON 53 \<le> 726680 / 1000000"
    by (simp add: geo_cos_gamma_def)
qed

lemma west_quotient:
  "837786 / 1000000 \<le>
     (geo_cos_gamma DHAKA_LAT DHAKA_LON 53 - 6371 / 42164) /
     sqrt (1 - (geo_cos_gamma DHAKA_LAT DHAKA_LON 53)\<^sup>2)"
  "(geo_cos_gamma DHAKA_LAT DHAKA_LON 53 - 6371 / 42164) /
     sqrt (1 - (geo_cos_gamma DHAKA_LAT DHAKA_LON 53)\<^sup>2) \<le> 837846 / 1000000"
proof -
  let ?c = "geo_cos_gamma DHAKA_LAT DHAKA_LON 53"
  have P: "(0 :: real) \<le> 6371 / 42164" "(6371 / 42164 :: real) < 726659 / 1000000"
    "(726680 / 1000000 :: real) < 1" "(0 :: real) < 686976 / 1000000"
    "(686976 / 1000000 :: real)\<^sup>2 \<le> 1 - (726680 / 1000000)\<^sup>2"
    "1 - (726659 / 1000000 :: real)\<^sup>2 \<le> (686999 / 1000000)\<^sup>2"
    "(0 :: real) < 686999 / 1000000"
    by (simp_all add: power_divide)
  note q = quotient_enclosure [OF west_cos_gamma P]
  have "(837786 / 1000000 :: real) \<le> (726659 / 1000000 - 6371 / 42164) / (686999 / 1000000)"
    by simp
  with q(3) show "837786 / 1000000 \<le> (?c - 6371 / 42164) / sqrt (1 - ?c\<^sup>2)" by linarith
  have "(726680 / 1000000 - 6371 / 42164) / (686976 / 1000000) \<le> (837846 / 1000000 :: real)"
    by simp
  with q(4) show "(?c - 6371 / 42164) / sqrt (1 - ?c\<^sup>2) \<le> 837846 / 1000000" by linarith
qed

lemma west_elevation:
  "399 / 10 \<le> geo_elevation DHAKA_LAT DHAKA_LON 53"
  "geo_elevation DHAKA_LAT DHAKA_LON 53 \<le> 3999 / 100"
proof -
  let ?q = "(geo_cos_gamma DHAKA_LAT DHAKA_LON 53 - 6371 / 42164) /
     sqrt (1 - (geo_cos_gamma DHAKA_LAT DHAKA_LON 53)\<^sup>2)"
  have el: "geo_elevation DHAKA_LAT DHAKA_LON 53 = degrees (arctan ?q)"
    by (simp add: geo_elevation_arctan elevation_of_cos_gamma_def)
  have "399 / 10 \<le> degrees (arctan ?q)"
  proof (rule arctan_ge_degrees [where tb = "696411 / 1000000" and ?q1.0 = "837786 / 1000000"])
    show "radians (399 / 10) \<le> 696411 / 1000000"
      using radians_enclosure(2) [of "399 / 10"] by simp
    show "837786 / 1000000 \<le> ?q" by (rule west_quotient(1))
  qed (simp_all add: cos_lo_def sin_hi_def power_divide)
  then show "399 / 10 \<le> geo_elevation DHAKA_LAT DHAKA_LON 53" by (simp only: el)
  have "degrees (arctan ?q) \<le> 3999 / 100"
  proof (rule arctan_le_degrees [where ta = "697956 / 1000000" and ?q2.0 = "837846 / 1000000"])
    show "697956 / 1000000 \<le> radians (3999 / 100)"
      using radians_enclosure(1) [of "3999 / 100"] by simp
    show "radians (3999 / 100) \<le> 3 / 2"
      using radians_enclosure(2) [of "3999 / 100"] by simp
    show "?q \<le> 837846 / 1000000" by (rule west_quotient(2))
    show "0 \<le> ?q" using west_quotient(1) by linarith
  qed (simp_all add: cos_hi_def sin_lo_def power_divide)
  then show "geo_elevation DHAKA_LAT DHAKA_LON 53 \<le> 3999 / 100" by (simp only: el)
qed

lemma west_visible:
  "calculate_geo_angles 53 =
     Some (geo_elevation DHAKA_LAT DHAKA_LON 53, geo_azimuth DHAKA_LAT DHAKA_LON 53)"
proof -
  have "R_EARTH / R_GEO < geo_cos_gamma DHAKA_LAT DHAKA_LON 53"
    using west_cos_gamma(1) by (simp add: R_EARTH_def R_GEO_def)
  moreover have "MIN_ELEVATION \<le> geo_elevation DHAKA_LAT DHAKA_LON 53"
    using west_elevation(1) by (simp add: MIN_ELEVATION_def)
  ultimately show ?thesis
    by (simp add: calculate_geo_angles_def geo_angles_at_unfold)
qed

lemma py_round_up:
  assumes "of_int k + 1 / 2 < x * 10 ^ n" "x * 10 ^ n < of_int k + 1"
  shows "py_round x n = (of_int k + 1) / 10 ^ n"
proof -
  have f: "\<lfloor>x * 10 ^ n\<rfloor> = k" using assms by linarith
  have "1 / 2 < x * 10 ^ n - of_int k" using assms by linarith
  then show ?thesis by (simp add: py_round_def Let_def f)
qed

lemma py_round_error: "\<bar>py_round x 1 - x\<bar> \<le> 1 / 20"
proof -
  let ?f = "\<lfloor>x * 10\<rfloor>"
  define r :: real where "r = of_int ?f"
  have b: "r \<le> x * 10" "x * 10 < r + 1" unfolding r_def by linarith+
  have lo': "\<bar>r / 10 - x\<bar> \<le> 1 / 20" if "x * 10 - r \<le> 1 / 2"
    using that b by linarith
  have hi': "\<bar>(r + 1) / 10 - x\<bar> \<le> 1 / 20" if "1 / 2 \<le> x * 10 - r"
  proof -
    have "(r + 1) / 10 = r / 10 + 1 / 10" by (simp add: add_divide_distrib)
    then show ?thesis using that b by linarith
  qed
  have lo: "\<bar>of_int ?f / 10 - x\<bar> \<le> 1 / 20" if "x * 10 - of_int ?f \<le> 1 / 2"
    using lo' that unfolding r_def by simp
  have hi: "\<bar>(of_int ?f + 1) / 10 - x\<bar> \<le> 1 / 20" if "1 / 2 \<le> x * 10 - of_int ?f"
    using hi' that unfolding r_def by simp
  consider "x * 10 - of_int ?f < 1 / 2" | "1 / 2 < x * 10 - of_int ?f"
    | "x * 10 - of_int ?f = 1 / 2" by linarith
  then show ?thesis
  proof cases
    case 1
    then have e: "py_round x 1 = of_int ?f / 10" by (simp add: py_round_def Let_def)
    show ?thesis unfolding e by (rule lo) (use 1 in simp)
  next
    case 2
    then have e: "py_round x 1 = (of_int ?f + 1) / 10" by (simp add: py_round_def Let_def)
    show ?thesis unfolding e by (rule hi) (use 2 in simp)
  next
    case 3
    then have "py_round x 1 = of_int ?f / 10 \<or> py_round x 1 = (of_int ?f + 1) / 10"
      by (simp add: py_round_def Let_def)
    then show ?thesis
    proof
      assume e: "py_round x 1 = of_int ?f / 10"
      show ?thesis unfolding e by (rule lo) (use 3 in simp)
    next
      assume e: "py_round x 1 = (of_int ?f + 1) / 10"
      show ?thesis unfolding e by (rule hi) (use 3 in simp)
    qed
  qed
qed

lemma express_am6_tags:
  "str_in ''Ku'' ''C/Ku''"
  "\<not> str_in ''Bangladesh'' ''Russia, Central Asia, Middle East''"
  "\<not> str_in ''South Asia'' ''Russia, Central Asia, Middle East''"
  "\<not> str_in ''India'' ''Russia, Central Asia, Middle East''"
  by simp_all

lemma express_am6_score:
  "priority_score_of (geo_elevation DHAKA_LAT DHAKA_LON 53) ''C/Ku''
     ''Russia, Central Asia, Middle East'' = geo_elevation DHAKA_LAT DHAKA_LON 53 / 10 + 3"
proof -
  have m: "min (geo_elevation DHAKA_LAT DHAKA_LON 53 / 10) 5 =
           geo_elevation DHAKA_LAT DHAKA_LON 53 / 10"
    using west_elevation(2) by simp
  show ?thesis
    unfolding priority_score_of_sum m by (simp only: express_am6_tags if_True if_False) simp
qed

lemma express_am6_row:
  "survey_entry (''RSCC'', ''Express AM6'', 53, ''C/Ku'', ''Russia, Central Asia, Middle East'') =
     Some \<lparr>row_operator = ''RSCC'', row_satellite = ''Express AM6'', row_longitude = 53,
            row_bands = ''C/Ku'', row_coverage = ''Russia, Central Asia, Middle East'',
            row_elevation = py_round (geo_elevation DHAKA_LAT DHAKA_LON 53) 2,
            row_azimuth = py_round (geo_azimuth DHAKA_LAT DHAKA_LON 53) 2,
            row_slant_range_km =
              py_round (calculate_slant_range (geo_elevation DHAKA_LAT DHAKA_LON 53)) 1,
            row_priority = MEDIUM,
            row_priority_score = 7\<rparr>"
proof -
  let ?s = "geo_elevation DHAKA_LAT DHAKA_LON 53 / 10 + 3"
  have s: "699 / 100 \<le> ?s" "?s \<le> 6999 / 1000" using west_elevation by simp_all
  have p: "priority_of ?s = MEDIUM" using s by (simp add: priority_of_def)
  have "py_round ?s 1 = (of_int 69 + 1) / 10 ^ 1"
    by (rule py_round_up) (use s in simp_all)
  then have r: "py_round ?s 1 = 7" by simp
  show ?thesis
    unfolding survey_entry_def
    by (simp only: prod.case west_visible option.case Let_def express_am6_score p r)
qed

text \<open>
  Claim C9, as the code has it. For every catalogue entry the survey keeps, the score
  computed in the loop is \<open>min (elevation / 10) 5\<close>, plus 3 when \<open>Ku\<close> occurs in the
  bands, plus 2 when \<open>Bangladesh\<close> or \<open>South Asia\<close> occurs in the coverage, plus 1 when
  \<open>India\<close> does; the tier is HIGH from 7, MEDIUM from 4 and below 7, LOW below 4, on
  that score. The row stores the score rounded to one decimal, at most 0.05 away
  from it.
\<close>

theorem survey_priority_score:
  assumes "survey_entry (operator, name, lon, bands, coverage) = Some row"
  shows "\<exists>elevation azimuth.
     calculate_geo_angles lon = Some (elevation, azimuth) \<and>
     priority_score_of elevation bands coverage =
       min (elevation / 10) 5 +
       (if str_in ''Ku'' bands then 3 else 0) +
       (if str_in ''Bangladesh'' coverage \<or> str_in ''South Asia'' coverage then 2 else 0) +
       (if str_in ''India'' coverage then 1 else 0) \<and>
     row_priority_score row = py_round (priority_score_of elevation bands coverage) 1 \<and>
     \<bar>row_priority_score row - priority_score_of elevation bands coverage\<bar> \<le> 1 / 20 \<and>
     (row_priority row = HIGH) = (7 \<le> priority_score_of elevation bands coverage) \<and>
     (row_priority row = MEDIUM) =
       (4 \<le> priority_score_of elevation bands coverage \<and>
        priority_score_of elevation bands coverage < 7) \<and>
     (row_priority row = LOW) = (priority_score_of elevation bands coverage < 4)"
proof -
  from survey_entry_Some [OF assms] obtain elevation azimuth where
    vis: "calculate_geo_angles lon = Some (elevation, azimuth)"
    and pr: "row_priority row = priority_of (priority_score_of elevation bands coverage)"
    and ps: "row_priority_score row = py_round (priority_score_of elevation bands coverage) 1"
    by blast
  show ?thesis
  proof (intro exI conjI)
    show "calculate_geo_angles lon = Some (elevation, azimuth)" by (rule vis)
    show "priority_score_of elevation bands coverage =
       min (elevation / 10) 5 +
       (if str_in ''Ku'' bands then 3 else 0) +
       (if str_in ''Bangladesh'' coverage \<or> str_in ''South Asia'' coverage then 2 else 0) +
       (if str_in ''India'' coverage then 1 else 0)"
      by (rule priority_score_of_sum)
    show "row_priority_score row = py_round (priority_score_of elevation bands coverage) 1"
      by (rule ps)
    show "\<bar>row_priority_score row - priority_score_of elevation bands coverage\<bar> \<le> 1 / 20"
      unfolding ps by (rule py_round_error)
    show "(row_priority row = HIGH) = (7 \<le> priority_score_of elevation bands coverage)"
      unfolding pr by (rule priority_of_tiers)
    show "(row_priority row = MEDIUM) =
       (4 \<le> priority_score_of elevation bands coverage \<and>
        priority_score_of elevation bands coverage < 7)"
      unfolding pr by (rule priority_of_tiers)
    show "(row_priority row = LOW) = (priority_score_of elevation bands coverage < 4)"
      unfolding pr by (rule priority_of_tiers)
  qed
qed

theorem survey_priority_score_witness:
  "survey_entry (''BSCCL'', ''Bangabandhu-1'', 1191 / 10, ''C/Ku'', ''Bangladesh, South Asia'') \<noteq> None \<and>
   row_priority (the (survey_entry
     (''BSCCL'', ''Bangabandhu-1'', 1191 / 10, ''C/Ku'', ''Bangladesh, South Asia''))) = HIGH \<and>
   priority_score_of (geo_elevation DHAKA_LAT DHAKA_LON (1191 / 10)) ''C/Ku''
     ''Bangladesh, South Asia'' = geo_elevation DHAKA_LAT DHAKA_LON (1191 / 10) / 10 + 5"
proof -
  let ?el = "geo_elevation DHAKA_LAT DHAKA_LON (1191 / 10)"
  have "\<exists>row. survey_entry (''BSCCL'', ''Bangabandhu-1'', 1191 / 10, ''C/Ku'',
      ''Bangladesh, South Asia'') = Some row"
    unfolding survey_entry_def by (simp only: prod.case bb_visible option.case Let_def) blast
  then obtain row where row: "survey_entry (''BSCCL'', ''Bangabandhu-1'', 1191 / 10, ''C/Ku'',
      ''Bangladesh, South Asia'') = Some row" by blast
  from survey_priority_score [OF row] obtain elevation azimuth where
    vis: "calculate_geo_angles (1191 / 10) = Some (elevation, azimuth)"
    and sc: "priority_score_of elevation ''C/Ku'' ''Bangladesh, South Asia'' =
       min (elevation / 10) 5 +
       (if str_in ''Ku'' ''C/Ku'' then 3 else 0) +
       (if str_in ''Bangladesh'' ''Bangladesh, South Asia'' \<or>
           str_in ''South Asia'' ''Bangladesh, South Asia'' then 2 else 0) +
       (if str_in ''India'' ''Bangladesh, South Asia'' then 1 else 0)"
    and hi: "(row_priority row = HIGH) =
       (7 \<le> priority_score_of elevation ''C/Ku'' ''Bangladesh, South Asia'')"
    by blast
  from vis bb_visible have el: "elevation = ?el" by simp
  have m: "min (?el / 10) 5 = ?el / 10" using bb_elevation(2) by simp
  have s: "priority_score_of ?el ''C/Ku'' ''Bangladesh, South Asia'' = ?el / 10 + 5"
    using sc unfolding el m by (simp only: bangabandhu_tags if_True if_False) simp
  have "row_priority row = HIGH" using hi s bb_elevation(1) unfolding el by simp
  then show ?thesis using row s by simp
qed

text \<open>
  Claim C9 as stated fails on the stored row: for Express AM6 at 53 degrees east the
  score is below 7, the row says 7.0, and its tier is MEDIUM.
\<close>

theorem survey_stored_score_counterexample:
  "row_priority_score (the (survey_entry
     (''RSCC'', ''Express AM6'', 53, ''C/Ku'', ''Russia, Central Asia, Middle East''))) = 7 \<and>
   row_priority (the (survey_entry
     (''RSCC'', ''Express AM6'', 53, ''C/Ku'', ''Russia, Central Asia, Middle East''))) = MEDIUM \<and>
   min (geo_elevation DHAKA_LAT DHAKA_LON 53 / 10) 5 + 3 < 7"
proof -
  have "min (geo_elevation DHAKA_LAT DHAKA_LON 53 / 10) 5 + 3 < 7"
    using west_elevation(2) by simp
  then show ?thesis by (simp add: express_am6_row)
qed

subsection \<open>The catalogue loop of \<open>calculate_geo_visibility\<close>\<close>

lemma visibility_loop_filter:
  "visibility_loop arc_min arc_max ts visible =
     Inr (visible @ map visible_row_of (filter (listed_target arc_min arc_max) ts))"
proof (induction ts arbitrary: visible)
  case Nil
  then show ?case by simp
next
  case (Cons t ts)
  obtain name lon operator where t: "t = (name, lon, operator)" by (cases t) auto
  show ?case
  proof (cases "listed_target arc_min arc_max t")
    case True
    then have "visibility_angles arc_min arc_max lon =
      Inr (Some (elevation_of_cos_gamma (visibility_cos_gamma lon), visibility_azimuth lon))"
      by (simp add: visibility_angles_result listed_target_def t)
    then show ?thesis
      using True by (simp add: t Cons.IH visible_row_of_def)
  next
    case False
    then have "visibility_angles arc_min arc_max lon = Inr None"
      by (simp add: visibility_angles_result listed_target_def t)
    then show ?thesis
      using False by (simp add: t Cons.IH)
  qed
qed

lemma calculate_geo_visibility_rows:
  "calculate_geo_visibility arc_min arc_max =
     Inr (map visible_row_of (filter (listed_target arc_min arc_max)
            (sort_key (\<lambda>x. fst (snd x)) GEO_TARGETS)))"
  by (simp add: calculate_geo_visibility_def visibility_loop_filter)

lemma visibility_angles_None_iff:
  "(visibility_angles arc_min arc_max lon = Inr None) =
     (lon < arc_min \<or> arc_max < lon \<or> visibility_cos_gamma lon \<le> 1513 / 10000)"
  by (auto simp: visibility_angles_result)

lemma vis_west:
  "726 / 1000 \<le> visibility_cos_gamma 53"
  "MIN_ELEVATION \<le> elevation_of_cos_gamma (visibility_cos_gamma 53)"
proof -
  let ?x = "\<bar>53 - GROUND_STATION_longitude\<bar> * (314159 / 100000) / 180"
  let ?c = "visibility_cos_gamma 53"
  have x: "65297 / 100000 \<le> ?x" "?x \<le> 65298 / 100000"
    by (simp_all add: GROUND_STATION_longitude_def)
  have "cos_lo (65298 / 100000) \<le> cos ?x"
    using cos_enclosure(1) [OF _ x] by simp
  moreover have "7942 / 10000 \<le> cos_lo (65298 / 100000)" by (simp add: cos_lo_def power_divide)
  ultimately have c: "7942 / 10000 \<le> cos ?x" by linarith
  have "914881 / 1000000 * (7942 / 10000)
        \<le> cos (GROUND_STATION_latitude * (314159 / 100000) / 180) * cos ?x"
    using vis_lat_cos(1) c by (intro mult_mono) simp_all
  then show lo: "726 / 1000 \<le> ?c" by (simp add: visibility_cos_gamma_def)
  have s: "0 < sqrt (1 - ?c\<^sup>2)" by (rule visibility_sqrt_pos)
  have "sqrt (1 - ?c\<^sup>2) \<le> 1" by (simp add: real_sqrt_le_1_iff)
  then have "(?c - 6371 / 42164) / 1 \<le> (?c - 6371 / 42164) / sqrt (1 - ?c\<^sup>2)"
    using lo s by (intro frac_le) simp_all
  moreover have "1 / 2 \<le> (?c - 6371 / 42164) / 1" using lo by simp
  ultimately have q: "1 / 2 \<le> (?c - 6371 / 42164) / sqrt (1 - ?c\<^sup>2)"
    by (rule order_trans [rotated])
  have "5 \<le> degrees (arctan ((?c - 6371 / 42164) / sqrt (1 - ?c\<^sup>2)))"
  proof (rule arctan_ge_degrees [where tb = "873 / 10000" and ?q1.0 = "1 / 2"])
    show "radians 5 \<le> 873 / 10000"
      using radians_enclosure(2) [of 5] by simp
    show "1 / 2 \<le> (?c - 6371 / 42164) / sqrt (1 - ?c\<^sup>2)" by (rule q)
  qed (simp_all add: cos_lo_def sin_hi_def power_divide)
  then show "MIN_ELEVATION \<le> elevation_of_cos_gamma ?c"
    by (simp add: MIN_ELEVATION_def elevation_of_cos_gamma_def)
qed

text \<open>
  Claim C1, as the code has it. \<open>calculate_geo_angles\<close> returns no result exactly when
  the cosine of the central angle is at most \<open>R_EARTH / R_GEO\<close> or the elevation is
  below the minimum, and an elevation equal to the minimum is returned; this holds for
  every observer and every minimum (\<open>geo_angles_at\<close>). \<open>calculate_geo_visibility\<close>
  has no minimum elevation: its loop skips a target exactly when the longitude lies
  outside the arc or the cosine is at most 0.1513, and the function returns the rows of
  the catalogue targets that pass, in the order of their longitudes.
\<close>

theorem geo_not_visible_iff:
  "(geo_angles_at lat lon m sat_lon = None) =
     (geo_cos_gamma lat lon sat_lon \<le> R_EARTH / R_GEO \<or> geo_elevation lat lon sat_lon < m) \<and>
   (R_EARTH / R_GEO < geo_cos_gamma lat lon sat_lon \<and> geo_elevation lat lon sat_lon = m \<longrightarrow>
      geo_angles_at lat lon m sat_lon = Some (m, geo_azimuth lat lon sat_lon)) \<and>
   (calculate_geo_angles sat_lon = None) =
     (geo_cos_gamma DHAKA_LAT DHAKA_LON sat_lon \<le> R_EARTH / R_GEO \<or>
      geo_elevation DHAKA_LAT DHAKA_LON sat_lon < MIN_ELEVATION) \<and>
   (visibility_angles arc_min arc_max sat_lon = Inr None) =
     (sat_lon < arc_min \<or> arc_max < sat_lon \<or> visibility_cos_gamma sat_lon \<le> 1513 / 10000) \<and>
   calculate_geo_visibility arc_min arc_max =
     Inr (map visible_row_of (filter (listed_target arc_min arc_max)
            (sort_key (\<lambda>x. fst (snd x)) GEO_TARGETS)))"
proof (intro conjI)
  show "(geo_angles_at lat lon m sat_lon = None) =
     (geo_cos_gamma lat lon sat_lon \<le> R_EARTH / R_GEO \<or> geo_elevation lat lon sat_lon < m)"
    by (auto simp: geo_angles_at_unfold)
  show "R_EARTH / R_GEO < geo_cos_gamma lat lon sat_lon \<and> geo_elevation lat lon sat_lon = m \<longrightarrow>
      geo_angles_at lat lon m sat_lon = Some (m, geo_azimuth lat lon sat_lon)"
    by (auto simp: geo_angles_at_unfold)
  show "(calculate_geo_angles sat_lon = None) =
     (geo_cos_gamma DHAKA_LAT DHAKA_LON sat_lon \<le> R_EARTH / R_GEO \<or>
      geo_elevation DHAKA_LAT DHAKA_LON sat_lon < MIN_ELEVATION)"
    by (auto simp: geo_angles_at_unfold calculate_geo_angles_def)
  show "(visibility_angles arc_min arc_max sat_lon = Inr None) =
     (sat_lon < arc_min \<or> arc_max < sat_lon \<or> visibility_cos_gamma sat_lon \<le> 1513 / 10000)"
    by (rule visibility_angles_None_iff)
  show "calculate_geo_visibility arc_min arc_max =
     Inr (map visible_row_of (filter (listed_target arc_min arc_max)
            (sort_key (\<lambda>x. fst (snd x)) GEO_TARGETS)))"
    by (rule calculate_geo_visibility_rows)
qed

theorem geo_not_visible_iff_witness:
  "geo_angles_at DHAKA_LAT DHAKA_LON (geo_elevation DHAKA_LAT DHAKA_LON (1191 / 10)) (1191 / 10) =
     Some (geo_elevation DHAKA_LAT DHAKA_LON (1191 / 10),
           geo_azimuth DHAKA_LAT DHAKA_LON (1191 / 10)) \<and>
   calculate_geo_angles (1191 / 10) \<noteq> None \<and>
   visibility_angles 40 160 (1191 / 10) \<noteq> Inr None \<and>
   visibility_angles 60 120 53 = Inr None"
proof -
  have c: "R_EARTH / R_GEO < geo_cos_gamma DHAKA_LAT DHAKA_LON (1191 / 10)"
    using bb_cos_gamma(1) by (simp add: R_EARTH_def R_GEO_def)
  have e: "\<not> geo_elevation DHAKA_LAT DHAKA_LON (1191 / 10) < MIN_ELEVATION"
    using bb_elevation(1) by (simp add: MIN_ELEVATION_def)
  note t = geo_not_visible_iff [of DHAKA_LAT DHAKA_LON
        "geo_elevation DHAKA_LAT DHAKA_LON (1191 / 10)" "1191 / 10" 40 160]
  note u = geo_not_visible_iff [of DHAKA_LAT DHAKA_LON MIN_ELEVATION 53 60 120]
  have a: "geo_angles_at DHAKA_LAT DHAKA_LON (geo_elevation DHAKA_LAT DHAKA_LON (1191 / 10))
             (1191 / 10) =
     Some (geo_elevation DHAKA_LAT DHAKA_LON (1191 / 10),
           geo_azimuth DHAKA_LAT DHAKA_LON (1191 / 10))"
    by (rule t [THEN conjunct2, THEN conjunct1, THEN mp]) (simp add: c)
  have b: "calculate_geo_angles (1191 / 10) \<noteq> None"
    using t [THEN conjunct2, THEN conjunct2, THEN conjunct1] c e by simp
  have v: "visibility_angles 40 160 (1191 / 10) \<noteq> Inr None"
    by (simp add: vis_1191)
  have w: "visibility_angles 60 120 53 = Inr None"
    using u [THEN conjunct2, THEN conjunct2, THEN conjunct2, THEN conjunct1] by simp
  show ?thesis by (intro conjI a b v w)
qed

text \<open>
  Claim C1 as stated fails on \<open>calculate_geo_visibility\<close>: with the arc from 60 to 120
  degrees the target at 53 degrees east gets no result, although its cosine is above
  \<open>R_EARTH / R_GEO\<close>, its elevation is above the minimum and \<open>calculate_geo_angles\<close>
  returns a result for it.
\<close>

theorem geo_visibility_arc_counterexample:
  "visibility_angles 60 120 53 = Inr None \<and>
   R_EARTH / R_GEO < visibility_cos_gamma 53 \<and>
   MIN_ELEVATION \<le> elevation_of_cos_gamma (visibility_cos_gamma 53) \<and>
   calculate_geo_angles 53 \<noteq> None"
proof -
  have "R_EARTH / R_GEO < visibility_cos_gamma 53"
    using vis_west(1) by (simp add: R_EARTH_def R_GEO_def)
  then show ?thesis
    using vis_west(2) by (simp add: visibility_angles_None_iff west_visible)
qed

subsection \<open>Longitudes mirrored about the observer\<close>



lemma py_mod_negative: "- 360 \<le> a \<Longrightarrow> a < 0 \<Longrightarrow> py_mod a 360 = a + 360"
proof -
  assume a: "- 360 \<le> a" "a < 0"
  then have "- 1 \<le> a / 360" "a / 360 < 0" by simp_all
  then have "\<lfloor>a / 360\<rfloor> = - 1" by linarith
  then show ?thesis by (simp add: py_mod_def)
qed








text \<open>
  For the catalogue target at 83 degrees east, west of the observer, the loop of
  \<open>calculate_geo_visibility\<close> gives an azimuth below 180 degrees, and
  \<open>calculate_geo_angles\<close> one above 180 degrees.
\<close>

lemma western_target_azimuths:
  "visibility_azimuth 83 < 180" "180 < geo_azimuth DHAKA_LAT DHAKA_LON 83"
proof -
  show "visibility_azimuth 83 < 180" by (rule vis_83(3))
  let ?t = "radians (DHAKA_LON - 83)" and ?L = "radians DHAKA_LAT"
  have t: "0 < ?t" "?t < 1"
    using radians_enclosure [of "DHAKA_LON - 83"] by (simp_all add: DHAKA_LON_def)
  have "83 - DHAKA_LON = - (DHAKA_LON - 83)" by simp
  then have rm: "radians (83 - DHAKA_LON) = - ?t"
    by (simp only: radians_def mult_minus_left)
  have st: "0 < sin ?t" using t pi_gt_3 by (intro sin_gt_zero) linarith+
  have ct: "0 < cos ?t" using t pi_gt_3 by (intro cos_gt_zero) linarith+
  have sL: "0 < sin ?L" using sin_lat(1) by linarith
  let ?d = "cos ?t * sin ?L"
  have d: "0 < ?d" using ct sL by (rule mult_pos_pos)
  have w: "0 < sin ?t / ?d" using st d by simp
  have "atan2 (- sin ?t) (- ?d) = arctan (- sin ?t / - ?d) - pi"
    using st d by (simp add: atan2_def)
  then have at: "atan2 (- sin ?t) (- cos ?t * sin ?L) = arctan (sin ?t / ?d) - pi" by simp
  have a0: "0 < arctan (sin ?t / ?d)" using w by (simp add: arctan_less_iff [of 0, simplified])
  have a1: "arctan (sin ?t / ?d) < pi / 2" by (rule arctan_ubound)
  have dg: "- 180 < degrees (arctan (sin ?t / ?d) - pi)" "degrees (arctan (sin ?t / ?d) - pi) < - 90"
    using a0 a1 by (simp_all add: degrees_def field_simps)
  have "geo_azimuth DHAKA_LAT DHAKA_LON 83 = degrees (arctan (sin ?t / ?d) - pi) + 360"
    unfolding geo_azimuth_def rm sin_minus cos_minus at
    by (rule py_mod_negative) (use dg in linarith)+
  then show "180 < geo_azimuth DHAKA_LAT DHAKA_LON 83" using dg by simp
qed

end
